theory Spec2Isabelle
  imports Main "HOL-Library.Word" "HOL-Library.Sublist"
begin

section \<open>Access-control subsystem of the financial-data server\<close>

text \<open>
  A shallow embedding of the OAuth client, the token store, the authentication
  middleware and the sliding-window rate limiter of
  \<^verbatim>\<open>packages/financial-data-server/src\<close>. JavaScript strings are
  \<^typ>\<open>string\<close>, numbers that hold counts and timestamps are \<^typ>\<open>int\<close>,
  a thrown \<^verbatim>\<open>Error\<close> is the \<open>Inl\<close> side of a sum, and the Redis
  server is an explicit state that every operation takes and returns.
\<close>

subsection \<open>Authorization context and scopes (types/auth.ts)\<close>

record AuthContext =
  userId :: string
  scopes :: "string list"
  tokenType :: string
  issuedAt :: int
  expiresAt :: int
  clientId :: string

definition ADMIN :: string where
  "ADMIN = ''admin:financial-data''"

definition READ_ALL :: string where
  "READ_ALL = ''read:financial-data''"

text \<open>\<^verbatim>\<open>s.startsWith(p)\<close>\<close>

definition startsWith :: "string \<Rightarrow> string \<Rightarrow> bool" where
  "startsWith s p = (take (length p) s = p)"

text \<open>\<^verbatim>\<open>xs.includes(x)\<close> and \<^verbatim>\<open>xs.every(p)\<close> on arrays.\<close>

definition arr_includes :: "string list \<Rightarrow> string \<Rightarrow> bool" where
  "arr_includes xs x = (x \<in> set xs)"

definition every :: "string list \<Rightarrow> (string \<Rightarrow> bool) \<Rightarrow> bool" where
  "every xs p = list_all p xs"

subsection \<open>AuthMiddleware.authorize\<close>

definition authorize :: "AuthContext \<Rightarrow> string list \<Rightarrow> bool" where
  "authorize context requiredScopes =
     (if length requiredScopes = 0 then True
      else if arr_includes (scopes context) ''admin:financial-data'' then True
      else if arr_includes (scopes context) ''read:financial-data''
              \<and> every requiredScopes (\<lambda>scope. startsWith scope ''read:'') then True
      else every requiredScopes (\<lambda>scope. arr_includes (scopes context) scope))"

subsection \<open>Errors\<close>

text \<open>
  What the code throws. \<open>Error msg\<close> is \<^verbatim>\<open>new Error(msg)\<close>,
  \<open>SecurityError msg\<close> is the class of that name in \<^verbatim>\<open>utils/errors.ts\<close>, and
  the other constructors are the exceptions of the libraries the code calls.
\<close>

datatype error =
    Error string
  | RedisError
  | ZodError
  | SyntaxError
  | CryptoError
  | SecurityError string

subsection \<open>The Redis server\<close>

text \<open>
  A sorted set is a list of (member, score) pairs with pairwise distinct members.
  The only members the rate limiter ever adds are the decimal strings of
  \<^verbatim>\<open>Date.now()\<close>; distinct integers have distinct decimal strings, so a
  member is represented by the integer it prints. A key with a time to live
  carries the absolute time (in milliseconds) at which it expires; the server
  reads the same clock as the caller. A string key holds its value and its
  expiry time. When the server is not reachable every command is rejected and
  the state is left as it was; whether it is reachable does not change while one
  operation of the subsystem runs.
\<close>

type_synonym zset = "(int \<times> int) list"

record redis =
  reachable :: bool
  zsets :: "string \<Rightarrow> zset"
  zttl :: "string \<Rightarrow> int option"
  kv :: "string \<Rightarrow> (string \<times> int) option"

definition redis_empty :: redis where
  "redis_empty = \<lparr>reachable = True, zsets = (\<lambda>k. []), zttl = (\<lambda>k. None), kv = (\<lambda>k. None)\<rparr>"

text \<open>A key whose time to live has passed at server time \<open>t\<close> is gone.\<close>

definition purge :: "int \<Rightarrow> string \<Rightarrow> redis \<Rightarrow> redis" where
  "purge t k r =
     (case zttl r k of
        None \<Rightarrow> r
      | Some e \<Rightarrow> if e \<le> t then r\<lparr>zsets := (zsets r)(k := []), zttl := (zttl r)(k := None)\<rparr> else r)"

text \<open>
  \<^verbatim>\<open>ZREMRANGEBYSCORE key -inf max\<close>: removes the members whose score is at most
  \<open>max\<close>; a sorted set left empty is deleted together with its time to live.
\<close>

definition ZREMRANGEBYSCORE :: "int \<Rightarrow> string \<Rightarrow> int \<Rightarrow> redis \<Rightarrow> redis" where
  "ZREMRANGEBYSCORE t k mx r =
     (let r1 = purge t k r;
          zs = filter (\<lambda>(m, s). \<not> s \<le> mx) (zsets r1 k)
      in r1\<lparr>zsets := (zsets r1)(k := zs),
             zttl := (if zs = [] then (zttl r1)(k := None) else zttl r1)\<rparr>)"

definition ZCARD :: "int \<Rightarrow> string \<Rightarrow> redis \<Rightarrow> int" where
  "ZCARD t k r = int (length (zsets (purge t k r) k))"

text \<open>
  \<^verbatim>\<open>ZADD key score member\<close>: a member that is already in the set only has its
  score updated; the cardinality grows only for a new member.
\<close>

definition ZADD :: "int \<Rightarrow> string \<Rightarrow> int \<Rightarrow> int \<Rightarrow> redis \<Rightarrow> redis" where
  "ZADD t k score member r =
     (let r1 = purge t k r
      in r1\<lparr>zsets := (zsets r1)(k := (member, score) # filter (\<lambda>(m, s). m \<noteq> member) (zsets r1 k))\<rparr>)"

text \<open>\<^verbatim>\<open>EXPIRE key seconds\<close>: sets the time to live of an existing key.\<close>

definition EXPIRE :: "int \<Rightarrow> string \<Rightarrow> int \<Rightarrow> redis \<Rightarrow> redis" where
  "EXPIRE t k secs r =
     (let r1 = purge t k r
      in if zsets r1 k = [] then r1 else r1\<lparr>zttl := (zttl r1)(k \<mapsto> t + secs * 1000)\<rparr>)"

text \<open>
  \<^verbatim>\<open>ZRANGE key 0 0 WITHSCORES\<close> returns the member of lowest score and that score;
  the script reads the second element of the reply, the score.
\<close>

fun lowest_score :: "zset \<Rightarrow> int option" where
  "lowest_score [] = None"
| "lowest_score ((m, s) # zs) =
     (case lowest_score zs of None \<Rightarrow> Some s | Some s' \<Rightarrow> Some (min s s'))"

definition ZRANGE_0_0_score :: "int \<Rightarrow> string \<Rightarrow> redis \<Rightarrow> int option" where
  "ZRANGE_0_0_score t k r = lowest_score (zsets (purge t k r) k)"

definition DEL :: "string \<Rightarrow> redis \<Rightarrow> redis" where
  "DEL k r = r\<lparr>zsets := (zsets r)(k := []), zttl := (zttl r)(k := None), kv := (kv r)(k := None)\<rparr>"

subsection \<open>RateLimiter (middleware/rate-limiter.ts)\<close>

record RateLimitConfig =
  windowMs :: int
  maxRequests :: int
  skipSuccessfulRequests :: bool
  skipFailedRequests :: bool

text \<open>\<^verbatim>\<open>Partial<RateLimitConfig>\<close>: \<open>None\<close> is a property that is not there.\<close>

record PartialRateLimitConfig =
  p_windowMs :: "int option"
  p_maxRequests :: "int option"
  p_skipSuccessfulRequests :: "bool option"
  p_skipFailedRequests :: "bool option"

definition noCustomConfig :: PartialRateLimitConfig where
  "noCustomConfig = \<lparr>p_windowMs = None, p_maxRequests = None,
                      p_skipSuccessfulRequests = None, p_skipFailedRequests = None\<rparr>"

text \<open>\<^verbatim>\<open>{ ...this.defaultConfig, ...customConfig }\<close>\<close>

definition spread :: "RateLimitConfig \<Rightarrow> PartialRateLimitConfig \<Rightarrow> RateLimitConfig" where
  "spread d c =
     \<lparr>windowMs = (case p_windowMs c of None \<Rightarrow> windowMs d | Some v \<Rightarrow> v),
      maxRequests = (case p_maxRequests c of None \<Rightarrow> maxRequests d | Some v \<Rightarrow> v),
      skipSuccessfulRequests =
        (case p_skipSuccessfulRequests c of None \<Rightarrow> skipSuccessfulRequests d | Some v \<Rightarrow> v),
      skipFailedRequests =
        (case p_skipFailedRequests c of None \<Rightarrow> skipFailedRequests d | Some v \<Rightarrow> v)\<rparr>"

record RateLimitResult =
  allowed :: bool
  limit :: int
  current :: int
  remaining :: int
  resetTime :: int
  retryAfter :: "int option"

definition generateKey :: "string \<Rightarrow> string \<Rightarrow> string \<Rightarrow> string" where
  "generateKey uid cid endpoint = ''rate_limit:'' @ cid @ '':'' @ uid @ '':'' @ endpoint"

text \<open>\<^verbatim>\<open>Math.ceil(a / b)\<close> for integers \<open>a\<close> and positive \<open>b\<close>.\<close>

definition ceil_div :: "int \<Rightarrow> int \<Rightarrow> int" where
  "ceil_div a b = - ((- a) div b)"

text \<open>\<^verbatim>\<open>x || y\<close> on numbers: zero is falsy.\<close>

definition num_or :: "int \<Rightarrow> int \<Rightarrow> int" where
  "num_or x y = (if x = 0 then y else x)"

text \<open>
  The Lua script of \<^verbatim>\<open>checkRateLimit\<close>, run by the server as one command at
  server time \<open>t\<close>. The reply is the four-element table the script returns.
\<close>

definition rate_limit_script ::
  "int \<Rightarrow> string \<Rightarrow> int \<Rightarrow> int \<Rightarrow> int \<Rightarrow> int \<Rightarrow> redis \<Rightarrow> (int \<times> int \<times> int \<times> int) \<times> redis" where
  "rate_limit_script t key window_start now max_requests window_ms r =
     (let r1 = ZREMRANGEBYSCORE t key window_start r;
          cur = ZCARD t key r1
      in if cur < max_requests then
           (let r2 = ZADD t key now now r1;
                r3 = EXPIRE t key (ceil_div window_ms 1000) r2
            in ((1, cur + 1, max_requests - cur - 1, now + window_ms), r3))
         else
           (let reset_time = (case ZRANGE_0_0_score t key r1 of
                                Some oldest \<Rightarrow> oldest + window_ms
                              | None \<Rightarrow> now + window_ms)
            in ((0, cur, 0, reset_time), r1)))"

text \<open>\<^verbatim>\<open>this.redis.eval(script, ...)\<close>: rejected when the server cannot be reached.\<close>

definition redis_eval :: "(redis \<Rightarrow> 'a \<times> redis) \<Rightarrow> redis \<Rightarrow> error + ('a \<times> redis)" where
  "redis_eval script r = (if reachable r then Inr (script r) else Inl RedisError)"

definition checkRateLimit ::
  "RateLimitConfig \<Rightarrow> PartialRateLimitConfig \<Rightarrow> string \<Rightarrow> string \<Rightarrow> string \<Rightarrow> int \<Rightarrow> redis
     \<Rightarrow> RateLimitResult \<times> redis" where
  "checkRateLimit defaultConfig customConfig uid cid endpoint now r =
     (let rateLimitConfig = spread defaultConfig customConfig;
          key = generateKey uid cid endpoint;
          windowStart = now - windowMs rateLimitConfig
      in case redis_eval (rate_limit_script now key windowStart now
                            (maxRequests rateLimitConfig) (windowMs rateLimitConfig)) r of
           Inr ((allowed_n, current_n, remaining_n, resetTime_n), r') \<Rightarrow>
             (let rateLimitResult =
                    \<lparr>allowed = (allowed_n = 1),
                     limit = maxRequests rateLimitConfig,
                     current = num_or current_n 0,
                     remaining = num_or remaining_n 0,
                     resetTime = num_or resetTime_n (now + windowMs rateLimitConfig),
                     retryAfter = None\<rparr>
              in (if \<not> allowed rateLimitResult \<and> resetTime_n \<noteq> 0
                  then rateLimitResult\<lparr>retryAfter := Some (ceil_div (resetTime_n - now) 1000)\<rparr>
                  else rateLimitResult,
                  r'))
         | Inl err \<Rightarrow>
             (\<lparr>allowed = True,
               limit = maxRequests rateLimitConfig,
               current = 0,
               remaining = maxRequests rateLimitConfig,
               resetTime = now + windowMs rateLimitConfig,
               retryAfter = None\<rparr>,
              r))"

text \<open>
  \<^verbatim>\<open>getRateLimitStatus\<close> sends two commands, each of which is rejected when the
  server cannot be reached.
\<close>

definition zRemRangeByScore :: "int \<Rightarrow> string \<Rightarrow> int \<Rightarrow> redis \<Rightarrow> error + redis" where
  "zRemRangeByScore t k mx r = (if reachable r then Inr (ZREMRANGEBYSCORE t k mx r) else Inl RedisError)"

definition zCard :: "int \<Rightarrow> string \<Rightarrow> redis \<Rightarrow> error + int" where
  "zCard t k r = (if reachable r then Inr (ZCARD t k r) else Inl RedisError)"

definition getRateLimitStatus ::
  "RateLimitConfig \<Rightarrow> string \<Rightarrow> string \<Rightarrow> string \<Rightarrow> int \<Rightarrow> redis \<Rightarrow> RateLimitResult \<times> redis" where
  "getRateLimitStatus defaultConfig uid cid endpoint now r =
     (let key = generateKey uid cid endpoint;
          windowStart = now - windowMs defaultConfig;
          unavailable = \<lparr>allowed = True,
                         limit = maxRequests defaultConfig,
                         current = 0,
                         remaining = maxRequests defaultConfig,
                         resetTime = now + windowMs defaultConfig,
                         retryAfter = None\<rparr>
      in case zRemRangeByScore now key windowStart r of
           Inl err \<Rightarrow> (unavailable, r)
         | Inr r1 \<Rightarrow>
             (case zCard now key r1 of
                Inl err \<Rightarrow> (unavailable, r1)
              | Inr cur \<Rightarrow>
                  (let rem = max 0 (maxRequests defaultConfig - cur)
                   in (\<lparr>allowed = (rem > 0),
                        limit = maxRequests defaultConfig,
                        current = cur,
                        remaining = rem,
                        resetTime = now + windowMs defaultConfig,
                        retryAfter = None\<rparr>,
                       r1))))"

text \<open>
  A run of calls on one key, in the order in which the server executes them;
  each call carries the \<^verbatim>\<open>Date.now()\<close> it read.
\<close>

fun checkRateLimit_calls ::
  "RateLimitConfig \<Rightarrow> PartialRateLimitConfig \<Rightarrow> string \<Rightarrow> string \<Rightarrow> string \<Rightarrow> int list \<Rightarrow> redis
     \<Rightarrow> RateLimitResult list \<times> redis" where
  "checkRateLimit_calls d c uid cid endpoint [] r = ([], r)"
| "checkRateLimit_calls d c uid cid endpoint (now # nows) r =
     (let (res, r1) = checkRateLimit d c uid cid endpoint now r;
          (ress, r2) = checkRateLimit_calls d c uid cid endpoint nows r1
      in (res # ress, r2))"

fun getRateLimitStatus_calls ::
  "RateLimitConfig \<Rightarrow> string \<Rightarrow> string \<Rightarrow> string \<Rightarrow> int list \<Rightarrow> redis \<Rightarrow> redis" where
  "getRateLimitStatus_calls d uid cid endpoint [] r = r"
| "getRateLimitStatus_calls d uid cid endpoint (now # nows) r =
     getRateLimitStatus_calls d uid cid endpoint nows (snd (getRateLimitStatus d uid cid endpoint now r))"

text \<open>
  The occupancy of the window of \<open>key\<close> that a check at time \<open>now\<close> with window
  width \<open>w\<close> counts: the cardinality after its own pruning step.
\<close>

definition occupancy :: "redis \<Rightarrow> string \<Rightarrow> int \<Rightarrow> int \<Rightarrow> int" where
  "occupancy r key now w = ZCARD now key (ZREMRANGEBYSCORE now key (now - w) r)"

subsection \<open>AuthMiddleware.authenticate and extractBearerToken\<close>

text \<open>
  A \<^typ>\<open>char\<close> is a code unit below 256. Among these, \<^verbatim>\<open>\s\<close> matches TAB,
  LF, VT, FF, CR, SPACE and NBSP, and \<^verbatim>\<open>.\<close> matches everything but the line
  terminators LF and CR.
\<close>

definition is_space :: "char \<Rightarrow> bool" where
  "is_space c = (c \<in> {CHR 0x09, CHR 0x0A, CHR 0x0B, CHR 0x0C, CHR 0x0D, CHR 0x20, CHR 0xA0})"

definition is_dot :: "char \<Rightarrow> bool" where
  "is_dot c = (c \<notin> {CHR 0x0A, CHR 0x0D})"

text \<open>
  The tail \<^verbatim>\<open>\s+(.+)$\<close> of the pattern on the text after \<^verbatim>\<open>Bearer\<close>:
  \<^verbatim>\<open>\s+\<close> first takes the whole run of \<open>n\<close> white-space characters and gives
  them back one by one, down to one; for each length the group \<^verbatim>\<open>(.+)\<close> must
  be the whole non-empty rest.
\<close>

fun spaces_then_group :: "nat \<Rightarrow> string \<Rightarrow> string option" where
  "spaces_then_group 0 s = None"
| "spaces_then_group (Suc k) s =
     (let g = drop (Suc k) s
      in if g \<noteq> [] \<and> list_all is_dot g then Some g else spaces_then_group k s)"

text \<open>\<^verbatim>\<open>authHeader.match(/^Bearer\s+(.+)$/)?.[1]\<close>\<close>

definition match_Bearer :: "string \<Rightarrow> string option" where
  "match_Bearer s =
     (if startsWith s ''Bearer''
      then spaces_then_group (length (takeWhile is_space (drop 6 s))) (drop 6 s)
      else None)"

text \<open>\<^verbatim>\<open>headers.authorization || headers.Authorization\<close>: the empty string is falsy.\<close>

definition authHeader :: "(string \<rightharpoonup> string) \<Rightarrow> string option" where
  "authHeader headers =
     (case headers ''authorization'' of
        None \<Rightarrow> headers ''Authorization''
      | Some v \<Rightarrow> if v = [] then headers ''Authorization'' else Some v)"

definition extractBearerToken :: "(string \<rightharpoonup> string) \<Rightarrow> string option" where
  "extractBearerToken headers =
     (case authHeader headers of
        None \<Rightarrow> None
      | Some h \<Rightarrow>
          if h = [] then None
          else (case match_Bearer h of
                  None \<Rightarrow> None
                | Some g \<Rightarrow> if g = [] then None else Some g))"

record AuthenticationResult =
  success :: bool
  auth_context :: "AuthContext option"
  auth_error :: "string option"

text \<open>
  \<^verbatim>\<open>validateJWT\<close> followed by \<^verbatim>\<open>buildAuthContext\<close> rests on the JWT library;
  it is the parameter \<open>validate\<close>, which gives the context or the message of the
  \<^verbatim>\<open>Error\<close> thrown.
\<close>

definition authenticate ::
  "(string \<Rightarrow> string + AuthContext) \<Rightarrow> (string \<rightharpoonup> string) \<Rightarrow> AuthenticationResult" where
  "authenticate validate headers =
     (case extractBearerToken headers of
        None \<Rightarrow> \<lparr>success = False, auth_context = None,
                  auth_error = Some ''Missing or invalid Authorization header''\<rparr>
      | Some token \<Rightarrow>
          (case validate token of
             Inr ctx \<Rightarrow> \<lparr>success = True, auth_context = Some ctx, auth_error = None\<rparr>
           | Inl msg \<Rightarrow> \<lparr>success = False, auth_context = None, auth_error = Some msg\<rparr>))"

subsection \<open>JSON values and the zod schemas of types/auth.ts\<close>

text \<open>
  A parsed JSON document. Numbers are integers: the numbers of this subsystem are
  counts of seconds. The keys of an object are pairwise distinct, and a key that is
  not there reads as \<^verbatim>\<open>undefined\<close>.
\<close>

datatype json =
    JNull
  | JBool bool
  | JNum int
  | JStr string
  | JArr "json list"
  | JObj "(string \<times> json) list"

text \<open>\<^verbatim>\<open>z.string()\<close> and \<^verbatim>\<open>z.string().optional()\<close> on a property.\<close>

definition z_string :: "json option \<Rightarrow> error + string" where
  "z_string v = (case v of Some (JStr x) \<Rightarrow> Inr x | _ \<Rightarrow> Inl ZodError)"

definition z_string_optional :: "json option \<Rightarrow> error + string option" where
  "z_string_optional v =
     (case v of None \<Rightarrow> Inr None | Some (JStr x) \<Rightarrow> Inr (Some x) | _ \<Rightarrow> Inl ZodError)"

text \<open>\<^verbatim>\<open>z.string().default(d)\<close>\<close>

definition z_string_default :: "string \<Rightarrow> json option \<Rightarrow> error + string" where
  "z_string_default d v =
     (case v of None \<Rightarrow> Inr d | Some (JStr x) \<Rightarrow> Inr x | _ \<Rightarrow> Inl ZodError)"

definition z_number :: "json option \<Rightarrow> error + int" where
  "z_number v = (case v of Some (JNum n) \<Rightarrow> Inr n | _ \<Rightarrow> Inl ZodError)"

text \<open>\<^verbatim>\<open>z.number().positive()\<close>\<close>

definition z_number_positive :: "json option \<Rightarrow> error + int" where
  "z_number_positive v =
     (case v of Some (JNum n) \<Rightarrow> if n > 0 then Inr n else Inl ZodError | _ \<Rightarrow> Inl ZodError)"

text \<open>\<^verbatim>\<open>z.array(z.string())\<close>\<close>

fun z_strings :: "json list \<Rightarrow> error + string list" where
  "z_strings [] = Inr []"
| "z_strings (JStr x # vs) = (case z_strings vs of Inl e \<Rightarrow> Inl e | Inr xs \<Rightarrow> Inr (x # xs))"
| "z_strings (v # vs) = Inl ZodError"

definition z_array_string :: "json option \<Rightarrow> error + string list" where
  "z_array_string v = (case v of Some (JArr vs) \<Rightarrow> z_strings vs | _ \<Rightarrow> Inl ZodError)"

record AccessToken =
  access_token :: string
  token_type :: string
  expires_in :: int
  refresh_token :: "string option"
  scope :: "string option"

definition AccessTokenSchema_parse :: "json \<Rightarrow> error + AccessToken" where
  "AccessTokenSchema_parse d =
     (case d of
        JObj fs \<Rightarrow>
          (case (z_string (map_of fs ''access_token''),
                 z_string_default ''Bearer'' (map_of fs ''token_type''),
                 z_number_positive (map_of fs ''expires_in''),
                 z_string_optional (map_of fs ''refresh_token''),
                 z_string_optional (map_of fs ''scope'')) of
             (Inr a, Inr t, Inr e, Inr rt, Inr sc) \<Rightarrow>
               Inr \<lparr>access_token = a, token_type = t, expires_in = e,
                    refresh_token = rt, scope = sc\<rparr>
           | _ \<Rightarrow> Inl ZodError)
      | _ \<Rightarrow> Inl ZodError)"

record OAuthErrorBody =
  oauth_error :: string
  error_description :: "string option"

definition oauth_error_codes :: "string list" where
  "oauth_error_codes =
     [''invalid_request'', ''invalid_client'', ''invalid_grant'', ''unauthorized_client'',
      ''unsupported_grant_type'', ''invalid_scope'', ''access_denied'',
      ''unsupported_response_type'', ''server_error'', ''temporarily_unavailable'']"

subsection \<open>OAuthClient (auth/oauth-client.ts)\<close>

record OAuthConfig =
  cfg_clientId :: string
  cfg_clientSecret :: string
  cfg_issuerUrl :: string
  cfg_redirectUri :: string
  cfg_scopes :: "string list"
  cfg_tokenEndpoint :: "string option"

record TokenRequest =
  grant_type :: string
  code :: "string option"
  redirect_uri :: "string option"
  client_id :: string
  code_verifier :: "string option"
  req_refresh_token :: "string option"

text \<open>
  What \<^verbatim>\<open>httpClient.post\<close> comes back with: a response body, an Axios error that
  carries a response body, or a failure without a response (no connection, timeout).
\<close>

datatype http_result =
    Response json
  | AxiosErrorResponse json
  | NoResponse

text \<open>
  The collaborators of the client: the URL test behind \<^verbatim>\<open>z.string().url()\<close>,
  and the token endpoint as seen through \<^verbatim>\<open>httpClient.post(url, body, {auth})\<close>.
\<close>

record oauth_env =
  isUrl :: "string \<Rightarrow> bool"
  http_post :: "string \<Rightarrow> TokenRequest \<Rightarrow> string \<times> string \<Rightarrow> http_result"

definition TokenRequestSchema_parse :: "oauth_env \<Rightarrow> TokenRequest \<Rightarrow> error + TokenRequest" where
  "TokenRequestSchema_parse env req =
     (if grant_type req \<in> {''authorization_code'', ''refresh_token''}
         \<and> (case redirect_uri req of None \<Rightarrow> True | Some u \<Rightarrow> isUrl env u)
      then Inr req else Inl ZodError)"

text \<open>
  \<^verbatim>\<open>parseOAuthError\<close>: the \<^verbatim>\<open>error\<close> and \<^verbatim>\<open>error_description\<close> of a
  body that passes \<^verbatim>\<open>OAuthErrorSchema\<close>, the fixed \<open>server_error\<close> otherwise.
\<close>

definition parseOAuthError :: "oauth_env \<Rightarrow> json \<Rightarrow> OAuthErrorBody" where
  "parseOAuthError env d =
     (let fallback = \<lparr>oauth_error = ''server_error'',
                       error_description = Some ''Unknown OAuth error occurred''\<rparr>
      in case d of
           JObj fs \<Rightarrow>
             (case (z_string (map_of fs ''error''),
                    z_string_optional (map_of fs ''error_description''),
                    z_string_optional (map_of fs ''error_uri''),
                    z_string_optional (map_of fs ''state'')) of
                (Inr e, Inr de, Inr u, Inr st) \<Rightarrow>
                  if e \<in> set oauth_error_codes
                     \<and> (case u of None \<Rightarrow> True | Some u' \<Rightarrow> isUrl env u')
                  then \<lparr>oauth_error = e, error_description = de\<rparr>
                  else fallback
              | _ \<Rightarrow> fallback)
         | _ \<Rightarrow> fallback)"

text \<open>\<^verbatim>\<open>a || b\<close> on an optional string: \<^verbatim>\<open>undefined\<close> and the empty string are falsy.\<close>

definition str_or :: "string option \<Rightarrow> string \<Rightarrow> string" where
  "str_or a b = (case a of None \<Rightarrow> b | Some x \<Rightarrow> if x = [] then b else x)"

text \<open>
  \<^verbatim>\<open>exchangeCodeForToken\<close>. The result is the list of requests posted to the
  token endpoint, and the token returned or the error thrown. The parameter
  \<open>state\<close> is written to the debug log and nowhere else.
\<close>

definition exchangeCodeForToken ::
  "oauth_env \<Rightarrow> OAuthConfig \<Rightarrow> string \<Rightarrow> string \<Rightarrow> string \<Rightarrow> TokenRequest list \<times> (error + AccessToken)" where
  "exchangeCodeForToken env config authcode codeVerifier state =
     (let tokenEndpoint = str_or (cfg_tokenEndpoint config) (cfg_issuerUrl config @ ''/oauth2/token'');
          tokenRequest = \<lparr>grant_type = ''authorization_code'',
                           code = Some authcode,
                           redirect_uri = Some (cfg_redirectUri config),
                           client_id = cfg_clientId config,
                           code_verifier = Some codeVerifier,
                           req_refresh_token = None\<rparr>
      in case TokenRequestSchema_parse env tokenRequest of
           Inl e \<Rightarrow> ([], Inl e)
         | Inr validatedRequest \<Rightarrow>
             (case http_post env tokenEndpoint validatedRequest
                     (cfg_clientId config, cfg_clientSecret config) of
                Response d \<Rightarrow>
                  (case AccessTokenSchema_parse d of
                     Inr tokenData \<Rightarrow> ([validatedRequest], Inr tokenData)
                   | Inl e \<Rightarrow>
                       ([validatedRequest],
                        Inl (Error ''Failed to exchange authorization code for token'')))
              | AxiosErrorResponse d \<Rightarrow>
                  (let oauthError = parseOAuthError env d
                   in ([validatedRequest],
                       Inl (Error (''OAuth error: '' @ oauth_error oauthError @ '' - ''
                                   @ str_or (error_description oauthError) ''Unknown error''))))
              | NoResponse \<Rightarrow>
                  ([validatedRequest],
                   Inl (Error ''Failed to exchange authorization code for token''))))"

text \<open>
  A stub token endpoint that answers every request with
  \<^verbatim>\<open>{access_token: "tok1", token_type: "Bearer", expires_in: 3600}\<close>, and a
  client configuration, for running the exchange on concrete inputs.
\<close>

definition stub_env :: oauth_env where
  "stub_env =
     \<lparr>isUrl = (\<lambda>u. startsWith u ''https://''),
      http_post = (\<lambda>url req auth.
         Response (JObj [(''access_token'', JStr ''tok1''), (''token_type'', JStr ''Bearer''),
                         (''expires_in'', JNum 3600)]))\<rparr>"

definition stub_config :: OAuthConfig where
  "stub_config =
     \<lparr>cfg_clientId = ''client-1'', cfg_clientSecret = ''secret'',
      cfg_issuerUrl = ''https://issuer.example'', cfg_redirectUri = ''https://app.example/cb'',
      cfg_scopes = [''read:financial-data''], cfg_tokenEndpoint = None\<rparr>"

subsection \<open>Buffers\<close>

text \<open>A \<^verbatim>\<open>Buffer\<close> is a list of bytes; \<^verbatim>\<open>buf.toString('hex')\<close> prints two
  lower-case hexadecimal digits per byte.\<close>

type_synonym byte = "8 word"

definition hex_digit :: "nat \<Rightarrow> char" where
  "hex_digit n = ''0123456789abcdef'' ! (n mod 16)"

definition hex_byte :: "byte \<Rightarrow> string" where
  "hex_byte b = [hex_digit (unat b div 16), hex_digit (unat b mod 16)]"

definition toString_hex :: "byte list \<Rightarrow> string" where
  "toString_hex bs = concat (map hex_byte bs)"

text \<open>\<^verbatim>\<open>s.split(c)\<close> for a one-character separator.\<close>

fun split_on :: "char \<Rightarrow> string \<Rightarrow> string list" where
  "split_on c [] = [[]]"
| "split_on c (x # xs) =
     (if x = c then [] # split_on c xs
      else (case split_on c xs of [] \<Rightarrow> [[x]] | p # ps \<Rightarrow> (x # p) # ps))"

subsection \<open>TokenStorage (auth/token-storage.ts)\<close>

record StoredToken =
  st_accessToken :: string
  st_refreshToken :: "string option"
  st_tokenType :: string
  st_expiresAt :: int
  st_scopes :: "string list"
  st_clientId :: string
  st_userId :: string

text \<open>
  The object that \<^verbatim>\<open>JSON.stringify\<close> is given: a property whose value is
  \<^verbatim>\<open>undefined\<close> is not written.
\<close>

definition StoredToken_json :: "StoredToken \<Rightarrow> json" where
  "StoredToken_json t =
     JObj ([(''accessToken'', JStr (st_accessToken t))]
           @ (case st_refreshToken t of None \<Rightarrow> [] | Some x \<Rightarrow> [(''refreshToken'', JStr x)])
           @ [(''tokenType'', JStr (st_tokenType t)),
              (''expiresAt'', JNum (st_expiresAt t)),
              (''scopes'', JArr (map JStr (st_scopes t))),
              (''clientId'', JStr (st_clientId t)),
              (''userId'', JStr (st_userId t))])"

definition StoredTokenSchema_parse :: "json \<Rightarrow> error + StoredToken" where
  "StoredTokenSchema_parse d =
     (case d of
        JObj fs \<Rightarrow>
          (case (z_string (map_of fs ''accessToken''),
                 z_string_optional (map_of fs ''refreshToken''),
                 z_string (map_of fs ''tokenType''),
                 z_number (map_of fs ''expiresAt''),
                 z_array_string (map_of fs ''scopes''),
                 z_string (map_of fs ''clientId''),
                 z_string (map_of fs ''userId'')) of
             (Inr a, Inr rt, Inr tt, Inr e, Inr sc, Inr c, Inr u) \<Rightarrow>
               Inr \<lparr>st_accessToken = a, st_refreshToken = rt, st_tokenType = tt,
                    st_expiresAt = e, st_scopes = sc, st_clientId = c, st_userId = u\<rparr>
           | _ \<Rightarrow> Inl ZodError)
      | _ \<Rightarrow> Inl ZodError)"

text \<open>
  The primitives of the platform that the store calls, for a key \<open>k\<close>:
  \<^item> \<open>cipher_hex k text\<close> is
    \<^verbatim>\<open>c.update(text, 'utf8', 'hex') + c.final('hex')\<close> for
    \<^verbatim>\<open>c = crypto.createCipher('aes-256-cbc', k)\<close>. \<^verbatim>\<open>createCipher\<close> takes the
    algorithm and the key and nothing else: it derives the cipher's initialization
    vector from the key.
  \<^item> \<open>decipher_utf8 k h\<close> is
    \<^verbatim>\<open>d.update(h, 'hex', 'utf8') + d.final('utf8')\<close> for
    \<^verbatim>\<open>d = crypto.createDecipher('aes-256-cbc', k)\<close>, or the error it throws.
  \<^item> \<open>JSON_stringify\<close> and \<open>JSON_parse\<close> (which throws on a text that is not JSON).
\<close>

record crypto_env =
  cipher_hex :: "string \<Rightarrow> string \<Rightarrow> string"
  decipher_utf8 :: "string \<Rightarrow> string \<Rightarrow> error + string"
  JSON_stringify :: "json \<Rightarrow> string"
  JSON_parse :: "string \<Rightarrow> error + json"

text \<open>\<^verbatim>\<open>encrypt\<close>; \<open>iv\<close> is what \<^verbatim>\<open>crypto.randomBytes(16)\<close> returned.\<close>

definition encrypt :: "crypto_env \<Rightarrow> string \<Rightarrow> byte list \<Rightarrow> string \<Rightarrow> string" where
  "encrypt env encryptionKey iv text =
     (let encrypted = cipher_hex env encryptionKey text
      in toString_hex iv @ '':'' @ encrypted)"

definition decrypt :: "crypto_env \<Rightarrow> string \<Rightarrow> string \<Rightarrow> error + string" where
  "decrypt env encryptionKey encryptedData =
     (let parts = split_on (CHR '':'') encryptedData
      in if length parts \<noteq> 2 \<or> parts ! 0 = [] \<or> parts ! 1 = []
         then Inl (Error ''Invalid encrypted data format'')
         else decipher_utf8 env encryptionKey (parts ! 1))"

definition generateAccessTokenKey :: "string \<Rightarrow> string \<Rightarrow> string" where
  "generateAccessTokenKey uid cid = ''auth:access_token:'' @ cid @ '':'' @ uid"

definition generateRefreshTokenKey :: "string \<Rightarrow> string \<Rightarrow> string" where
  "generateRefreshTokenKey uid cid = ''auth:refresh_token:'' @ cid @ '':'' @ uid"

text \<open>
  The commands the store sends, at server time \<open>t\<close> (milliseconds). A value set
  with a time to live of \<open>ttl\<close> seconds is gone once \<open>ttl\<close> seconds have passed.
\<close>

definition setEx :: "int \<Rightarrow> string \<Rightarrow> int \<Rightarrow> string \<Rightarrow> redis \<Rightarrow> error + redis" where
  "setEx t k ttl v r =
     (if reachable r \<and> ttl > 0
      then Inr (r\<lparr>zsets := (zsets r)(k := []), zttl := (zttl r)(k := None),
                  kv := (kv r)(k \<mapsto> (v, t + ttl * 1000))\<rparr>)
      else Inl RedisError)"

definition redis_get :: "int \<Rightarrow> string \<Rightarrow> redis \<Rightarrow> error + string option" where
  "redis_get t k r =
     (if reachable r
      then Inr (case kv r k of None \<Rightarrow> None | Some (v, e) \<Rightarrow> if e \<le> t then None else Some v)
      else Inl RedisError)"

definition del :: "string \<Rightarrow> redis \<Rightarrow> error + redis" where
  "del k r = (if reachable r then Inr (DEL k r) else Inl RedisError)"

text \<open>
  \<^verbatim>\<open>storeToken\<close> at \<^verbatim>\<open>Date.now() = now_ms\<close>. The record built from the typed
  arguments passes \<^verbatim>\<open>StoredTokenSchema\<close>. Every error of the \<^verbatim>\<open>try\<close> block is
  replaced by the fixed \<^verbatim>\<open>Error\<close>.
\<close>

definition storeToken ::
  "crypto_env \<Rightarrow> string \<Rightarrow> byte list \<Rightarrow> string \<Rightarrow> string \<Rightarrow> AccessToken \<Rightarrow> AuthContext \<Rightarrow> int \<Rightarrow> redis
     \<Rightarrow> error + redis" where
  "storeToken env encryptionKey iv uid cid accessToken authContext now_ms r =
     (let validatedToken =
            \<lparr>st_accessToken = access_token accessToken,
             st_refreshToken = refresh_token accessToken,
             st_tokenType = token_type accessToken,
             st_expiresAt = expiresAt authContext,
             st_scopes = scopes authContext,
             st_clientId = cid,
             st_userId = uid\<rparr>;
          encryptedData = encrypt env encryptionKey iv (JSON_stringify env (StoredToken_json validatedToken));
          accessTokenKey = generateAccessTokenKey uid cid;
          refreshTokenKey = generateRefreshTokenKey uid cid;
          ttlSeconds = max 60 (expiresAt authContext - now_ms div 1000)
      in case setEx now_ms accessTokenKey ttlSeconds encryptedData r of
           Inl e \<Rightarrow> Inl (Error ''Failed to store authentication token'')
         | Inr r1 \<Rightarrow>
             if str_or (refresh_token accessToken) [] \<noteq> []
             then (case setEx now_ms refreshTokenKey (ttlSeconds + 24 * 60 * 60) encryptedData r1 of
                     Inl e \<Rightarrow> Inl (Error ''Failed to store authentication token'')
                   | Inr r2 \<Rightarrow> Inr r2)
             else Inr r1)"

text \<open>\<^verbatim>\<open>deleteToken\<close>: both keys are deleted; an error becomes the fixed \<^verbatim>\<open>Error\<close>.\<close>

definition deleteToken :: "string \<Rightarrow> string \<Rightarrow> redis \<Rightarrow> error + redis" where
  "deleteToken uid cid r =
     (case del (generateAccessTokenKey uid cid) r of
        Inl e \<Rightarrow> Inl (Error ''Failed to delete authentication token'')
      | Inr r1 \<Rightarrow>
          (case del (generateRefreshTokenKey uid cid) r1 of
             Inl e \<Rightarrow> Inl (Error ''Failed to delete authentication token'')
           | Inr r2 \<Rightarrow> Inr r2))"

text \<open>
  The three statements of \<^verbatim>\<open>getToken\<close> that turn a stored blob into a record:
  \<^verbatim>\<open>decrypt\<close>, \<^verbatim>\<open>JSON.parse\<close>, \<^verbatim>\<open>StoredTokenSchema.parse\<close>.
\<close>

definition decodeStoredToken :: "crypto_env \<Rightarrow> string \<Rightarrow> string \<Rightarrow> error + StoredToken" where
  "decodeStoredToken env encryptionKey encryptedData =
     (case decrypt env encryptionKey encryptedData of
        Inl e \<Rightarrow> Inl e
      | Inr decryptedData \<Rightarrow>
          (case JSON_parse env decryptedData of
             Inl e \<Rightarrow> Inl e
           | Inr tokenData \<Rightarrow> StoredTokenSchema_parse tokenData))"

text \<open>
  The \<^verbatim>\<open>try\<close> block of \<^verbatim>\<open>getToken\<close> at \<^verbatim>\<open>Date.now() = now_ms\<close>: the
  record or \<^verbatim>\<open>null\<close>, with the state of the store, or the error thrown.
\<close>

definition getToken_try ::
  "crypto_env \<Rightarrow> string \<Rightarrow> string \<Rightarrow> string \<Rightarrow> int \<Rightarrow> redis \<Rightarrow> error + (StoredToken option \<times> redis)" where
  "getToken_try env encryptionKey uid cid now_ms r =
     (let accessTokenKey = generateAccessTokenKey uid cid
      in case redis_get now_ms accessTokenKey r of
           Inl e \<Rightarrow> Inl e
         | Inr None \<Rightarrow> Inr (None, r)
         | Inr (Some encryptedData) \<Rightarrow>
             if encryptedData = [] then Inr (None, r)
             else (case decodeStoredToken env encryptionKey encryptedData of
                     Inl e \<Rightarrow> Inl e
                   | Inr storedToken \<Rightarrow>
                       (let now = now_ms div 1000
                        in if st_expiresAt storedToken \<le> now
                           then (case deleteToken uid cid r of
                                   Inl e \<Rightarrow> Inl e
                                 | Inr r1 \<Rightarrow> Inr (None, r1))
                           else Inr (Some storedToken, r))))"

text \<open>
  \<^verbatim>\<open>getToken\<close>: the \<^verbatim>\<open>catch\<close> clause returns \<^verbatim>\<open>null\<close> for every error. A
  command that is rejected leaves the store as it was.
\<close>

definition getToken ::
  "crypto_env \<Rightarrow> string \<Rightarrow> string \<Rightarrow> string \<Rightarrow> int \<Rightarrow> redis \<Rightarrow> error + (StoredToken option \<times> redis)" where
  "getToken env encryptionKey uid cid now_ms r =
     (case getToken_try env encryptionKey uid cid now_ms r of
        Inl e \<Rightarrow> Inr (None, r)
      | Inr res \<Rightarrow> Inr res)"

text \<open>
  A stand-in for the platform primitives, a record, its serialized text and a store
  that holds its blob, for running the token store on concrete inputs. The stand-in
  cipher and parser know the one text.
\<close>

definition stub_token :: StoredToken where
  "stub_token = \<lparr>st_accessToken = ''tok1'', st_refreshToken = None, st_tokenType = ''Bearer'',
                  st_expiresAt = 2000, st_scopes = [''read:financial-data''],
                  st_clientId = ''c'', st_userId = ''u''\<rparr>"

definition stub_text :: string where
  \<open>stub_text = ''{"accessToken":"tok1","tokenType":"Bearer","expiresAt":2000,"scopes":["read:financial-data"],"clientId":"c","userId":"u"}''\<close>

definition stub_crypto :: crypto_env where
  "stub_crypto =
     \<lparr>cipher_hex = (\<lambda>k t. if t = stub_text then ''5a17c0de'' else ''00''),
      decipher_utf8 = (\<lambda>k h. if h = ''5a17c0de'' then Inr stub_text else Inl CryptoError),
      JSON_stringify = (\<lambda>j. if j = StoredToken_json stub_token then stub_text else ''null''),
      JSON_parse = (\<lambda>s. if s = stub_text then Inr (StoredToken_json stub_token) else Inl SyntaxError)\<rparr>"

definition stub_store :: redis where
  "stub_store = redis_empty\<lparr>kv := (\<lambda>k. None)(''auth:access_token:c:u'' \<mapsto> (''00ff:5a17c0de'', 9000000))\<rparr>"

definition stub_access :: AccessToken where
  "stub_access = \<lparr>access_token = ''tok1'', token_type = ''Bearer'', expires_in = 3600,
                   refresh_token = None, scope = None\<rparr>"

definition stub_context :: AuthContext where
  "stub_context = \<lparr>userId = ''u'', scopes = [''read:financial-data''], tokenType = ''Bearer'',
                    issuedAt = 0, expiresAt = 2000, clientId = ''c''\<rparr>"

subsection \<open>PKCE generation (auth/oauth-client.ts)\<close>

text \<open>\<^verbatim>\<open>buf.toString('base64')\<close>: three bytes give four characters of the
  alphabet, and the last group is padded with \<open>=\<close>.\<close>

definition base64_alphabet :: string where
  "base64_alphabet = ''ABCDEFGHIJKLMNOPQRSTUVWXYZabcdefghijklmnopqrstuvwxyz0123456789+/''"

definition b64 :: "nat \<Rightarrow> char" where
  "b64 n = base64_alphabet ! (n mod 64)"

fun toString_base64 :: "byte list \<Rightarrow> string" where
  "toString_base64 [] = []"
| "toString_base64 [a] =
     [b64 (unat a div 4), b64 ((unat a mod 4) * 16), CHR ''='', CHR ''='']"
| "toString_base64 [a, b] =
     [b64 (unat a div 4), b64 ((unat a mod 4) * 16 + unat b div 16),
      b64 ((unat b mod 16) * 4), CHR ''='']"
| "toString_base64 (a # b # c # bs) =
     [b64 (unat a div 4), b64 ((unat a mod 4) * 16 + unat b div 16),
      b64 ((unat b mod 16) * 4 + unat c div 64), b64 (unat c mod 64)] @ toString_base64 bs"

text \<open>\<^verbatim>\<open>s.replace(/c/g, rep)\<close> for a character \<open>c\<close>.\<close>

definition replace_all :: "char \<Rightarrow> string \<Rightarrow> string \<Rightarrow> string" where
  "replace_all c rep s = concat (map (\<lambda>x. if x = c then rep else [x]) s)"

definition base64URLEncode :: "byte list \<Rightarrow> string" where
  "base64URLEncode buffer =
     replace_all (CHR ''='') [] (replace_all (CHR ''/'') ''_'' (replace_all (CHR ''+'') ''-''
       (toString_base64 buffer)))"

text \<open>The bytes that \<^verbatim>\<open>hash.update(s)\<close> reads from a string of ASCII characters.\<close>

definition ascii_bytes :: "string \<Rightarrow> byte list" where
  "ascii_bytes s = map (\<lambda>c. of_nat (of_char c)) s"

record PKCE =
  pkce_code_verifier :: string
  pkce_code_challenge :: string
  pkce_code_challenge_method :: string
  pkce_state :: string

definition PKCESchema_parse :: "PKCE \<Rightarrow> error + PKCE" where
  "PKCESchema_parse p =
     (if 43 \<le> length (pkce_code_verifier p) \<and> length (pkce_code_verifier p) \<le> 128
         \<and> 43 \<le> length (pkce_code_challenge p) \<and> length (pkce_code_challenge p) \<le> 128
         \<and> pkce_code_challenge_method p \<in> {''S256'', ''plain''}
         \<and> 1 \<le> length (pkce_state p)
      then Inr p else Inl ZodError)"

text \<open>
  \<^verbatim>\<open>generatePKCE\<close>. \<open>random32\<close> and \<open>random16\<close> are what
  \<^verbatim>\<open>crypto.randomBytes(32)\<close> and \<^verbatim>\<open>crypto.randomBytes(16)\<close> returned, and
  \<open>sha256\<close> is \<^verbatim>\<open>crypto.createHash('sha256').update(s).digest()\<close> on the bytes
  of \<open>s\<close>.
\<close>

definition generatePKCE :: "(byte list \<Rightarrow> byte list) \<Rightarrow> byte list \<Rightarrow> byte list \<Rightarrow> error + PKCE" where
  "generatePKCE sha256 random32 random16 =
     (let codeVerifier = base64URLEncode random32;
          codeChallenge = base64URLEncode (sha256 (ascii_bytes codeVerifier));
          state = base64URLEncode random16
      in PKCESchema_parse
           \<lparr>pkce_code_verifier = codeVerifier,
            pkce_code_challenge = codeChallenge,
            pkce_code_challenge_method = ''S256'',
            pkce_state = state\<rparr>)"

text \<open>The character that \<^verbatim>\<open>base64URLEncode\<close> makes of one base64 character.\<close>

definition url_char :: "char \<Rightarrow> string" where
  "url_char x =
     (if x = CHR ''='' then [] else if x = CHR ''/'' then ''_''
      else if x = CHR ''+'' then ''-'' else [x])"

definition url_alphabet :: string where
  "url_alphabet = ''ABCDEFGHIJKLMNOPQRSTUVWXYZabcdefghijklmnopqrstuvwxyz0123456789-_''"

text \<open>A stand-in for the digest, with an output of 32 bytes.\<close>

definition stub_sha256 :: "byte list \<Rightarrow> byte list" where
  "stub_sha256 bs = replicate 32 (of_nat (length bs))"

section \<open>Properties\<close>

lemma includes_iff: "arr_includes xs x \<longleftrightarrow> x \<in> set xs"
  by (simp add: arr_includes_def)

lemma every_iff: "every xs p \<longleftrightarrow> (\<forall>x \<in> set xs. p x)"
  by (simp add: every_def list_all_iff)

lemma startsWith_prefix: "startsWith s p \<longleftrightarrow> prefix p s"
  by (auto simp: startsWith_def prefix_def) (metis append_take_drop_id)

text \<open>
  C6. \<open>authorize context S\<close> is true exactly when \<open>S\<close> is empty, or the context holds
  the admin scope, or it holds the read-all scope and every member of \<open>S\<close> starts
  with \<open>read:\<close>, or every member of \<open>S\<close> is among the context's scopes. In
  particular the context whose only scope is the admin scope authorizes
  \<open>[read:sec-filings, read:earnings]\<close>.
\<close>

theorem authorize_iff:
  "(authorize context S \<longleftrightarrow>
      S = []
      \<or> ADMIN \<in> set (scopes context)
      \<or> (READ_ALL \<in> set (scopes context) \<and> (\<forall>s \<in> set S. prefix ''read:'' s))
      \<or> (\<forall>s \<in> set S. s \<in> set (scopes context)))
   \<and> (scopes context = [''admin:financial-data'']
        \<longrightarrow> authorize context [''read:sec-filings'', ''read:earnings''])"
  by (auto simp: authorize_def includes_iff every_iff startsWith_prefix ADMIN_def READ_ALL_def)

theorem authorize_iff_witness:
  "authorize \<lparr>userId = ''u'', scopes = [''admin:financial-data''], tokenType = ''Bearer'',
              issuedAt = 0, expiresAt = 3600, clientId = ''c''\<rparr>
             [''read:sec-filings'', ''read:earnings'']
   \<and> \<not> authorize \<lparr>userId = ''u'', scopes = [''read:financial-data''], tokenType = ''Bearer'',
              issuedAt = 0, expiresAt = 3600, clientId = ''c''\<rparr>
             [''write:financial-data'']"
  using authorize_iff [of "\<lparr>userId = ''u'', scopes = [''admin:financial-data''], tokenType = ''Bearer'',
              issuedAt = 0, expiresAt = 3600, clientId = ''c''\<rparr>" "[''read:sec-filings'', ''read:earnings'']"]
        authorize_iff [of "\<lparr>userId = ''u'', scopes = [''read:financial-data''], tokenType = ''Bearer'',
              issuedAt = 0, expiresAt = 3600, clientId = ''c''\<rparr>" "[''write:financial-data'']"]
  by (simp add: ADMIN_def READ_ALL_def)

subsection \<open>Rate limiter\<close>

lemma subseq_set: "subseq xs ys \<Longrightarrow> set xs \<subseteq> set ys"
  by (auto elim: list_emb_set)

lemma zrem_live_subseq:
  "subseq (zsets (purge t k' (ZREMRANGEBYSCORE now k mx r)) k') (zsets (purge t k' r) k')"
  by (simp add: ZREMRANGEBYSCORE_def purge_def Let_def split: option.splits)

lemma status_live_subseq:
  "subseq (zsets (purge t k' (snd (getRateLimitStatus d uid cid ep now r))) k') (zsets (purge t k' r) k')"
  by (simp add: getRateLimitStatus_def zRemRangeByScore_def zCard_def Let_def zrem_live_subseq
           split: sum.splits)

lemma status_calls_live_subseq:
  "subseq (zsets (purge t k' (getRateLimitStatus_calls d uid cid ep nows r)) k') (zsets (purge t k' r) k')"
proof (induction nows arbitrary: r)
  case Nil
  then show ?case by simp
next
  case (Cons now nows)
  have "subseq (zsets (purge t k' (getRateLimitStatus_calls d uid cid ep nows
                  (snd (getRateLimitStatus d uid cid ep now r)))) k')
               (zsets (purge t k' (snd (getRateLimitStatus d uid cid ep now r))) k')"
    by (rule Cons.IH)
  also have "subseq \<dots> (zsets (purge t k' r) k')"
    by (rule status_live_subseq)
  finally show ?case by simp
qed

lemma zrem_subseq: "subseq (zsets (ZREMRANGEBYSCORE now k mx r) k') (zsets r k')"
  by (simp add: ZREMRANGEBYSCORE_def purge_def Let_def split: option.splits)

lemma status_subseq:
  "subseq (zsets (snd (getRateLimitStatus d uid cid ep now r)) k') (zsets r k')"
  by (simp add: getRateLimitStatus_def zRemRangeByScore_def zCard_def Let_def zrem_subseq
           split: sum.splits)

lemma status_calls_subseq:
  "subseq (zsets (getRateLimitStatus_calls d uid cid ep nows r) k') (zsets r k')"
proof (induction nows arbitrary: r)
  case Nil
  then show ?case by simp
next
  case (Cons now nows)
  have "subseq (zsets (getRateLimitStatus_calls d uid cid ep nows
                  (snd (getRateLimitStatus d uid cid ep now r))) k')
               (zsets (snd (getRateLimitStatus d uid cid ep now r)) k')"
    by (rule Cons.IH)
  also have "subseq \<dots> (zsets r k')"
    by (rule status_subseq)
  finally show ?case by simp
qed

lemma occupancy_alt:
  "occupancy r key now w = int (length (filter (\<lambda>(m, s). \<not> s \<le> now - w) (zsets (purge now key r) key)))"
  by (simp add: occupancy_def ZCARD_def ZREMRANGEBYSCORE_def purge_def Let_def split: option.splits)

lemma occupancy_mono:
  assumes "subseq (zsets (purge now key r') key) (zsets (purge now key r) key)"
  shows "occupancy r' key now w \<le> occupancy r key now w"
proof -
  have "subseq (filter (\<lambda>(m, s). \<not> s \<le> now - w) (zsets (purge now key r') key))
               (filter (\<lambda>(m, s). \<not> s \<le> now - w) (zsets (purge now key r) key))"
    using assms by (rule subseq_filter)
  then have "length (filter (\<lambda>(m, s). \<not> s \<le> now - w) (zsets (purge now key r') key))
               \<le> length (filter (\<lambda>(m, s). \<not> s \<le> now - w) (zsets (purge now key r) key))"
    by (rule list_emb_length)
  then show ?thesis by (simp add: occupancy_alt)
qed

text \<open>A check admits exactly when the server is unreachable or the window has room.\<close>

lemma checkRateLimit_allowed_iff:
  "allowed (fst (checkRateLimit d c uid cid endpoint now r)) \<longleftrightarrow>
     \<not> reachable r
     \<or> occupancy r (generateKey uid cid endpoint) now (windowMs (spread d c)) < maxRequests (spread d c)"
  by (simp add: checkRateLimit_def redis_eval_def rate_limit_script_def occupancy_def Let_def)

lemma status_reachable: "reachable (snd (getRateLimitStatus d uid cid endpoint now r)) = reachable r"
  by (simp add: getRateLimitStatus_def zRemRangeByScore_def zCard_def Let_def ZREMRANGEBYSCORE_def
        purge_def split: sum.splits option.splits)

lemma status_calls_reachable:
  "reachable (getRateLimitStatus_calls d uid cid endpoint nows r) = reachable r"
  by (induction nows arbitrary: r) (simp_all add: status_reachable)

lemma filter_all: "(\<forall>x\<in>set xs. P x) \<Longrightarrow> filter P xs = xs"
  by (induction xs) auto

lemma purge_id: "(\<forall>e. zttl r k = Some e \<longrightarrow> t < e) \<Longrightarrow> purge t k r = r"
  by (auto simp: purge_def split: option.splits)

lemma script_step:
  assumes noprune: "\<forall>(m, s)\<in>set (zsets r k). now - w < s"
    and nopurge: "\<forall>e. zttl r k = Some e \<longrightarrow> now < e"
  shows "rate_limit_script now k (now - w) now mx w r =
           (if int (length (zsets r k)) < mx
            then ((1, int (length (zsets r k)) + 1, mx - int (length (zsets r k)) - 1, now + w),
                  r\<lparr>zsets := (zsets r)(k := (now, now) # filter (\<lambda>(m, s). m \<noteq> now) (zsets r k)),
                    zttl := (zttl r)(k \<mapsto> now + ceil_div w 1000 * 1000)\<rparr>)
            else ((0, int (length (zsets r k)), 0,
                   (case lowest_score (zsets r k) of Some oldest \<Rightarrow> oldest + w | None \<Rightarrow> now + w)),
                  r\<lparr>zsets := (zsets r)(k := zsets r k),
                    zttl := (if zsets r k = [] then (zttl r)(k := None) else zttl r)\<rparr>))"
proof -
  have p: "purge now k r = r" using nopurge by (rule purge_id)
  have f: "filter (\<lambda>(m, s). \<not> s \<le> now - w) (zsets r k) = zsets r k"
    using noprune by (intro filter_all) auto
  define r1 where "r1 = r\<lparr>zsets := (zsets r)(k := zsets r k),
                    zttl := (if zsets r k = [] then (zttl r)(k := None) else zttl r)\<rparr>"
  have r1: "ZREMRANGEBYSCORE now k (now - w) r = r1"
    by (simp add: ZREMRANGEBYSCORE_def p f Let_def r1_def)
  have p1: "purge now k r1 = r1"
    using nopurge by (intro purge_id) (simp add: r1_def)
  have c1: "ZCARD now k r1 = int (length (zsets r k))"
    by (simp add: ZCARD_def p1) (simp add: r1_def)
  define r2 where "r2 = r1\<lparr>zsets := (zsets r1)(k := (now, now) # filter (\<lambda>(m, s). m \<noteq> now) (zsets r1 k))\<rparr>"
  have r2: "ZADD now k now now r1 = r2"
    by (simp add: ZADD_def p1 Let_def r2_def)
  have p2: "purge now k r2 = r2"
    using nopurge by (intro purge_id) (simp add: r2_def r1_def)
  have r3: "EXPIRE now k (ceil_div w 1000) r2 = r2\<lparr>zttl := (zttl r2)(k \<mapsto> now + ceil_div w 1000 * 1000)\<rparr>"
    by (simp add: EXPIRE_def p2 Let_def) (simp add: r2_def)
  have l1: "ZRANGE_0_0_score now k r1 = lowest_score (zsets r k)"
    by (simp add: ZRANGE_0_0_score_def p1) (simp add: r1_def)
  show ?thesis
    unfolding rate_limit_script_def r1 Let_def c1 r2 r3 l1
    by (simp add: r2_def r1_def)
qed

lemma checkRateLimit_step:
  assumes reach: "reachable r"
    and noprune: "\<forall>(m, s)\<in>set (zsets r (generateKey uid cid ep)). now - windowMs (spread d c) < s"
    and nopurge: "\<forall>e. zttl r (generateKey uid cid ep) = Some e \<longrightarrow> now < e"
  shows "allowed (fst (checkRateLimit d c uid cid ep now r))
           = (int (length (zsets r (generateKey uid cid ep))) < maxRequests (spread d c))"
    and "snd (checkRateLimit d c uid cid ep now r) =
           (if int (length (zsets r (generateKey uid cid ep))) < maxRequests (spread d c)
            then r\<lparr>zsets := (zsets r)(generateKey uid cid ep :=
                        (now, now) # filter (\<lambda>(m, s). m \<noteq> now) (zsets r (generateKey uid cid ep))),
                    zttl := (zttl r)(generateKey uid cid ep \<mapsto>
                        now + ceil_div (windowMs (spread d c)) 1000 * 1000)\<rparr>
            else r\<lparr>zsets := (zsets r)(generateKey uid cid ep := zsets r (generateKey uid cid ep)),
                    zttl := (if zsets r (generateKey uid cid ep) = []
                             then (zttl r)(generateKey uid cid ep := None) else zttl r)\<rparr>)"
  using reach
  by (simp_all add: checkRateLimit_def redis_eval_def Let_def script_step [OF noprune nopurge])

lemma ceil_div_ge:
  fixes w :: int
  shows "w \<le> ceil_div w 1000 * 1000"
proof -
  have "(- w) div 1000 * 1000 \<le> - w" by linarith
  then show ?thesis by (simp add: ceil_div_def)
qed

text \<open>
  When the calls on one key read pairwise distinct timestamps that lie within one
  window width of each other, the count is exact: starting from a window that holds
  \<open>n\<close> timestamps, the first \<open>maxRequests - n\<close> calls are admitted and the others
  are rejected. The equal timestamps of C1 are the case this leaves out.
\<close>

lemma checkRateLimit_calls_distinct:
  assumes reach: "reachable r"
    and dist: "distinct nows"
    and fresh: "\<forall>a\<in>set nows. a \<notin> fst ` set (zsets r (generateKey uid cid ep))"
    and near: "\<forall>a\<in>set nows. \<forall>b\<in>set nows. a - windowMs (spread d c) < b"
    and held: "\<forall>a\<in>set nows. \<forall>(m, s)\<in>set (zsets r (generateKey uid cid ep)). a - windowMs (spread d c) < s"
    and ttl: "\<forall>e. zttl r (generateKey uid cid ep) = Some e \<longrightarrow> (\<forall>a\<in>set nows. a < e)"
  shows "map allowed (fst (checkRateLimit_calls d c uid cid ep nows r))
         = replicate (min (nat (maxRequests (spread d c) - int (length (zsets r (generateKey uid cid ep)))))
                          (length nows)) True
           @ replicate (length nows
                        - min (nat (maxRequests (spread d c) - int (length (zsets r (generateKey uid cid ep)))))
                              (length nows)) False"
  using assms
proof (induction nows arbitrary: r)
  case Nil
  then show ?case by simp
next
  case (Cons a nows)
  let ?k = "generateKey uid cid ep"
  let ?w = "windowMs (spread d c)"
  let ?K = "maxRequests (spread d c)"
  let ?zs = "zsets r ?k"
  let ?r' = "snd (checkRateLimit d c uid cid ep a r)"
  have noprune: "\<forall>(m, s)\<in>set ?zs. a - ?w < s" using Cons.prems(5) by simp
  have nopurge: "\<forall>e. zttl r ?k = Some e \<longrightarrow> a < e" using Cons.prems(6) by simp
  note st = checkRateLimit_step [OF Cons.prems(1) noprune nopurge]
  have an: "a \<notin> fst ` set ?zs" using Cons.prems(3) by simp
  then have fa: "filter (\<lambda>(m, s). m \<noteq> a) ?zs = ?zs"
    by (intro filter_all) force
  have unfold: "map allowed (fst (checkRateLimit_calls d c uid cid ep (a # nows) r))
      = allowed (fst (checkRateLimit d c uid cid ep a r))
        # map allowed (fst (checkRateLimit_calls d c uid cid ep nows ?r'))"
    by (simp add: Let_def split: prod.splits)
  show ?case
  proof (cases "int (length ?zs) < ?K")
    case True
    have r': "?r' = r\<lparr>zsets := (zsets r)(?k := (a, a) # ?zs),
                       zttl := (zttl r)(?k \<mapsto> a + ceil_div ?w 1000 * 1000)\<rparr>"
      using st(2) True fa by simp
    have 1: "reachable ?r'" using Cons.prems(1) by (simp add: r')
    have 2: "distinct nows" using Cons.prems(2) by simp
    have 3: "\<forall>b\<in>set nows. b \<notin> fst ` set (zsets ?r' ?k)"
      using Cons.prems(2,3) by (auto simp: r')
    have 4: "\<forall>x\<in>set nows. \<forall>b\<in>set nows. x - ?w < b" using Cons.prems(4) by simp
    have 5: "\<forall>x\<in>set nows. \<forall>(m, s)\<in>set (zsets ?r' ?k). x - ?w < s"
      using Cons.prems(4,5) by (auto simp: r')
    have 6: "\<forall>e. zttl ?r' ?k = Some e \<longrightarrow> (\<forall>x\<in>set nows. x < e)"
    proof (intro allI impI ballI)
      fix e x assume e: "zttl ?r' ?k = Some e" and x: "x \<in> set nows"
      from e have "e = a + ceil_div ?w 1000 * 1000" by (simp add: r')
      moreover have "x - ?w < a" using Cons.prems(4) x by simp
      ultimately show "x < e" using ceil_div_ge [of ?w] by linarith
    qed
    have len: "length (zsets ?r' ?k) = Suc (length ?zs)" by (simp add: r')
    have ih: "map allowed (fst (checkRateLimit_calls d c uid cid ep nows ?r'))
         = replicate (min (nat (?K - int (Suc (length ?zs)))) (length nows)) True
           @ replicate (length nows - min (nat (?K - int (Suc (length ?zs)))) (length nows)) False"
      using Cons.IH [OF 1 2 3 4 5 6] by (simp only: len)
    have n: "nat (?K - int (length ?zs)) = Suc (nat (?K - int (Suc (length ?zs))))"
      using True by simp
    show ?thesis
      unfolding unfold ih st(1) n using True by simp
  next
    case False
    have r': "?r' = r\<lparr>zsets := (zsets r)(?k := ?zs),
                       zttl := (if ?zs = [] then (zttl r)(?k := None) else zttl r)\<rparr>"
      using st(2) False by simp
    have 1: "reachable ?r'" using Cons.prems(1) by (simp add: r')
    have 2: "distinct nows" using Cons.prems(2) by simp
    have z: "zsets ?r' ?k = ?zs" by (simp add: r')
    have 3: "\<forall>b\<in>set nows. b \<notin> fst ` set (zsets ?r' ?k)"
      using Cons.prems(3) by (simp add: z)
    have 4: "\<forall>x\<in>set nows. \<forall>b\<in>set nows. x - ?w < b" using Cons.prems(4) by simp
    have 5: "\<forall>x\<in>set nows. \<forall>(m, s)\<in>set (zsets ?r' ?k). x - ?w < s"
      using Cons.prems(5) by (simp add: z)
    have 6: "\<forall>e. zttl ?r' ?k = Some e \<longrightarrow> (\<forall>x\<in>set nows. x < e)"
      using Cons.prems(6) by (auto simp: r' split: if_splits)
    have ih: "map allowed (fst (checkRateLimit_calls d c uid cid ep nows ?r'))
         = replicate (min (nat (?K - int (length ?zs))) (length nows)) True
           @ replicate (length nows - min (nat (?K - int (length ?zs))) (length nows)) False"
      using Cons.IH [OF 1 2 3 4 5 6] by (simp only: z)
    have n: "nat (?K - int (length ?zs)) = 0" using False by simp
    show ?thesis
      unfolding unfold ih st(1) n using False by (simp add: replicate_Suc [symmetric] del: replicate_Suc)
  qed
qed

text \<open>
  C1 (the code at the failing input). With \<open>maxRequests = 2\<close> and an empty window,
  three calls for one key that all read \<^verbatim>\<open>Date.now() = 1000\<close> are all
  admitted: the script adds the member \<open>1000\<close> three times, the sorted set keeps one
  copy, and the cardinality the script counts never reaches the limit.
\<close>

theorem checkRateLimit_same_millisecond_all_admitted:
  "map allowed (fst (checkRateLimit_calls
      \<lparr>windowMs = 60000, maxRequests = 2, skipSuccessfulRequests = False, skipFailedRequests = False\<rparr>
      noCustomConfig ''u'' ''c'' ''e'' [1000, 1000, 1000] redis_empty))
   = [True, True, True]"
  by (simp add: checkRateLimit_def redis_eval_def rate_limit_script_def ZREMRANGEBYSCORE_def
        ZCARD_def ZADD_def EXPIRE_def purge_def redis_empty_def spread_def noCustomConfig_def
        generateKey_def Let_def ceil_div_def num_or_def)

text \<open>
  C8. When the server cannot be reached, the \<^verbatim>\<open>eval\<close> of the script is rejected
  and \<^verbatim>\<open>checkRateLimit\<close> returns the fail-open result: allowed, with
  \<open>current = 0\<close> and \<open>remaining = maxRequests\<close>; nothing is raised to the caller
  and the state of the store is not touched.
\<close>

theorem checkRateLimit_fail_open:
  "\<not> reachable r \<Longrightarrow>
   redis_eval (rate_limit_script now (generateKey uid cid endpoint) (now - windowMs (spread d c)) now
                 (maxRequests (spread d c)) (windowMs (spread d c))) r = Inl RedisError
   \<and> checkRateLimit d c uid cid endpoint now r =
       (\<lparr>allowed = True, limit = maxRequests (spread d c), current = 0,
         remaining = maxRequests (spread d c), resetTime = now + windowMs (spread d c),
         retryAfter = None\<rparr>, r)"
  by (simp add: checkRateLimit_def redis_eval_def Let_def)

theorem checkRateLimit_fail_open_witness:
  "\<not> reachable (redis_empty\<lparr>reachable := False\<rparr>)
   \<and> fst (checkRateLimit
        \<lparr>windowMs = 60000, maxRequests = 3, skipSuccessfulRequests = False, skipFailedRequests = False\<rparr>
        noCustomConfig ''u'' ''c'' ''e'' 1000 (redis_empty\<lparr>reachable := False\<rparr>))
     = \<lparr>allowed = True, limit = 3, current = 0, remaining = 3, resetTime = 61000, retryAfter = None\<rparr>"
proof -
  have h: "\<not> reachable (redis_empty\<lparr>reachable := False\<rparr>)" by simp
  show ?thesis
    using h checkRateLimit_fail_open [OF h, of 1000 "''u''" "''c''" "''e''"
        "\<lparr>windowMs = 60000, maxRequests = 3, skipSuccessfulRequests = False, skipFailedRequests = False\<rparr>"
        noCustomConfig]
    by (simp add: spread_def noCustomConfig_def)
qed

text \<open>
  C10. \<^verbatim>\<open>getRateLimitStatus\<close> adds no timestamp: after any number of status
  queries every window entry holds only members it held before, the occupancy that a
  check counts (at any time, for any window width and any key) has not grown, and a
  check that would have been admitted without the queries is admitted after them.
\<close>

theorem getRateLimitStatus_adds_nothing:
  "set (zsets (getRateLimitStatus_calls d uid cid endpoint nows r) key) \<subseteq> set (zsets r key)
   \<and> occupancy (getRateLimitStatus_calls d uid cid endpoint nows r) key now w \<le> occupancy r key now w
   \<and> (allowed (fst (checkRateLimit d c uid' cid' endpoint' now r))
        \<longrightarrow> allowed (fst (checkRateLimit d c uid' cid' endpoint' now
                              (getRateLimitStatus_calls d uid cid endpoint nows r))))"
proof -
  let ?r' = "getRateLimitStatus_calls d uid cid endpoint nows r"
  have occ: "occupancy ?r' k t v \<le> occupancy r k t v" for k t v
    by (rule occupancy_mono [OF status_calls_live_subseq])
  have "set (zsets ?r' key) \<subseteq> set (zsets r key)"
    by (rule subseq_set [OF status_calls_subseq])
  moreover have "allowed (fst (checkRateLimit d c uid' cid' endpoint' now ?r'))"
    if "allowed (fst (checkRateLimit d c uid' cid' endpoint' now r))"
    using that occ [of "generateKey uid' cid' endpoint'" now "windowMs (spread d c)"]
    by (auto simp: checkRateLimit_allowed_iff status_calls_reachable)
  ultimately show ?thesis using occ by blast
qed

theorem getRateLimitStatus_adds_nothing_witness:
  "allowed (fst (checkRateLimit
       \<lparr>windowMs = 60000, maxRequests = 2, skipSuccessfulRequests = False, skipFailedRequests = False\<rparr>
       noCustomConfig ''u'' ''c'' ''e'' 2000
       (redis_empty\<lparr>zsets := (\<lambda>k. []) (''rate_limit:c:u:e'' := [(1000, 1000)])\<rparr>)))
   \<and> allowed (fst (checkRateLimit
       \<lparr>windowMs = 60000, maxRequests = 2, skipSuccessfulRequests = False, skipFailedRequests = False\<rparr>
       noCustomConfig ''u'' ''c'' ''e'' 2000
       (getRateLimitStatus_calls
          \<lparr>windowMs = 60000, maxRequests = 2, skipSuccessfulRequests = False, skipFailedRequests = False\<rparr>
          ''u'' ''c'' ''e'' [1500, 1600, 1700]
          (redis_empty\<lparr>zsets := (\<lambda>k. []) (''rate_limit:c:u:e'' := [(1000, 1000)])\<rparr>))))"
proof -
  have h: "allowed (fst (checkRateLimit
       \<lparr>windowMs = 60000, maxRequests = 2, skipSuccessfulRequests = False, skipFailedRequests = False\<rparr>
       noCustomConfig ''u'' ''c'' ''e'' 2000
       (redis_empty\<lparr>zsets := (\<lambda>k. []) (''rate_limit:c:u:e'' := [(1000, 1000)])\<rparr>)))"
    by (simp add: checkRateLimit_def redis_eval_def rate_limit_script_def ZREMRANGEBYSCORE_def ZCARD_def
          purge_def redis_empty_def spread_def noCustomConfig_def generateKey_def Let_def)
  show ?thesis
    using h getRateLimitStatus_adds_nothing
      [of "\<lparr>windowMs = 60000, maxRequests = 2, skipSuccessfulRequests = False, skipFailedRequests = False\<rparr>"
          "''u''" "''c''" "''e''" "[1500, 1600, 1700]"
          "redis_empty\<lparr>zsets := (\<lambda>k. []) (''rate_limit:c:u:e'' := [(1000, 1000)])\<rparr>"
          "''rate_limit:c:u:e''" 2000 60000 noCustomConfig "''u''" "''c''" "''e''"]
    by blast
qed

subsection \<open>Bearer-token extraction\<close>

lemma spaces_then_group_Some:
  "spaces_then_group n s = Some g \<Longrightarrow> \<exists>k. 1 \<le> k \<and> k \<le> n \<and> g = drop k s \<and> g \<noteq> [] \<and> list_all is_dot g"
proof (induction n)
  case 0
  then show ?case by simp
next
  case (Suc n)
  show ?case
  proof (cases "drop (Suc n) s \<noteq> [] \<and> list_all is_dot (drop (Suc n) s)")
    case True
    with Suc.prems have "g = drop (Suc n) s" by (simp add: Let_def)
    with True show ?thesis by (intro exI [of _ "Suc n"]) simp
  next
    case False
    with Suc.prems have "spaces_then_group n s = Some g" by (auto simp: Let_def)
    from Suc.IH [OF this] obtain k where "1 \<le> k" "k \<le> n" "g = drop k s" "g \<noteq> []" "list_all is_dot g"
      by blast
    then show ?thesis by (intro exI [of _ k]) simp
  qed
qed

lemma spaces_then_group_None:
  "spaces_then_group n s = None \<Longrightarrow> 1 \<le> k \<Longrightarrow> k \<le> n \<Longrightarrow> drop k s = [] \<or> \<not> list_all is_dot (drop k s)"
proof (induction n)
  case 0
  then show ?case by simp
next
  case (Suc n)
  show ?case
  proof (cases "k = Suc n")
    case True
    with Suc.prems(1) show ?thesis by (auto simp: Let_def split: if_splits)
  next
    case False
    with Suc.prems have "k \<le> n" by simp
    moreover from Suc.prems(1) have "spaces_then_group n s = None" by (auto simp: Let_def split: if_splits)
    ultimately show ?thesis using Suc.IH Suc.prems(2) by blast
  qed
qed

lemma take_le_takeWhile:
  "k \<le> length (takeWhile P xs) \<Longrightarrow> list_all P (take k xs)"
proof (induction xs arbitrary: k)
  case Nil
  then show ?case by simp
next
  case (Cons x xs)
  then show ?case by (cases k) (auto split: if_splits)
qed

lemma match_Bearer_Some:
  assumes "match_Bearer s = Some g"
  shows "\<exists>ws. s = ''Bearer'' @ ws @ g \<and> ws \<noteq> [] \<and> list_all is_space ws \<and> g \<noteq> [] \<and> list_all is_dot g"
proof -
  from assms have "prefix ''Bearer'' s"
    by (auto simp: match_Bearer_def startsWith_prefix split: if_splits)
  then obtain r where s: "s = ''Bearer'' @ r" by (auto simp: prefix_def)
  then have r: "drop 6 s = r" by simp
  from assms have sg: "spaces_then_group (length (takeWhile is_space r)) r = Some g"
    by (auto simp: match_Bearer_def r split: if_splits)
  from spaces_then_group_Some [OF sg] obtain k where k: "1 \<le> k" "k \<le> length (takeWhile is_space r)"
    "g = drop k r" "g \<noteq> []" "list_all is_dot g" by blast
  let ?ws = "take k r"
  have 1: "s = ''Bearer'' @ ?ws @ g" using s k(3) by simp
  have 2: "list_all is_space ?ws" using k(2) by (rule take_le_takeWhile)
  have 3: "?ws \<noteq> []" using k(1,3,4) by auto
  from 1 2 3 k show ?thesis by blast
qed

lemma match_Bearer_None:
  assumes "match_Bearer s = None"
  shows "\<not> (\<exists>ws g. s = ''Bearer'' @ ws @ g \<and> ws \<noteq> [] \<and> list_all is_space ws \<and> g \<noteq> [] \<and> list_all is_dot g)"
proof
  assume "\<exists>ws g. s = ''Bearer'' @ ws @ g \<and> ws \<noteq> [] \<and> list_all is_space ws \<and> g \<noteq> [] \<and> list_all is_dot g"
  then obtain ws g where s: "s = ''Bearer'' @ ws @ g" and ws: "ws \<noteq> []" "list_all is_space ws"
    and g: "g \<noteq> []" "list_all is_dot g" by blast
  have r: "drop 6 s = ws @ g" using s by simp
  have "startsWith s ''Bearer''" using s by (simp add: startsWith_def)
  with assms have sg: "spaces_then_group (length (takeWhile is_space (ws @ g))) (ws @ g) = None"
    by (simp add: match_Bearer_def r)
  have "takeWhile is_space (ws @ g) = ws @ takeWhile is_space g"
    using ws(2) by (simp add: list_all_iff takeWhile_append2)
  then have le: "length ws \<le> length (takeWhile is_space (ws @ g))" by simp
  have "1 \<le> length ws" using ws(1) by (cases ws) auto
  from spaces_then_group_None [OF sg this le] g show False by simp
qed

lemma authHeader_two_names:
  "authHeader headers = authHeader (headers |` {''authorization'', ''Authorization''})"
  by (simp add: authHeader_def restrict_map_def)

text \<open>
  C7 (amended). \<^verbatim>\<open>authenticate\<close> reads the header under the two names
  \<open>authorization\<close> and \<open>Authorization\<close> only (the first if it is non-empty).
  A token is extracted exactly when that value is \<open>Bearer\<close> (case-sensitive),
  followed by one or more white-space characters, followed by a non-empty rest without
  line terminators; the token is such a rest. Otherwise \<^verbatim>\<open>authenticate\<close> fails
  with the fixed reason \<open>Missing or invalid Authorization header\<close>, whatever the
  token validator would have said.
\<close>

theorem authenticate_bearer_header:
  "(authHeader headers = authHeader (headers |` {''authorization'', ''Authorization''}))
   \<and> (extractBearerToken headers = None \<longleftrightarrow>
        \<not> (\<exists>ws g. authHeader headers = Some (''Bearer'' @ ws @ g)
                 \<and> ws \<noteq> [] \<and> list_all is_space ws \<and> g \<noteq> [] \<and> list_all is_dot g))
   \<and> (\<forall>tok. extractBearerToken headers = Some tok \<longrightarrow>
        (\<exists>ws. authHeader headers = Some (''Bearer'' @ ws @ tok)
              \<and> ws \<noteq> [] \<and> list_all is_space ws \<and> tok \<noteq> [] \<and> list_all is_dot tok))
   \<and> (extractBearerToken headers = None \<longrightarrow>
        authenticate validate headers =
          \<lparr>success = False, auth_context = None,
           auth_error = Some ''Missing or invalid Authorization header''\<rparr>)"
proof -
  have some: "\<exists>ws. authHeader headers = Some (''Bearer'' @ ws @ tok)
              \<and> ws \<noteq> [] \<and> list_all is_space ws \<and> tok \<noteq> [] \<and> list_all is_dot tok"
    if "extractBearerToken headers = Some tok" for tok
  proof -
    from that obtain h where h: "authHeader headers = Some h" and m: "match_Bearer h = Some tok"
      by (auto simp: extractBearerToken_def split: option.splits if_splits)
    from match_Bearer_Some [OF m] h show ?thesis by blast
  qed
  have none: "\<not> (\<exists>ws g. authHeader headers = Some (''Bearer'' @ ws @ g)
                 \<and> ws \<noteq> [] \<and> list_all is_space ws \<and> g \<noteq> [] \<and> list_all is_dot g)"
    if n: "extractBearerToken headers = None"
  proof
    assume "\<exists>ws g. authHeader headers = Some (''Bearer'' @ ws @ g)
                 \<and> ws \<noteq> [] \<and> list_all is_space ws \<and> g \<noteq> [] \<and> list_all is_dot g"
    then obtain ws g where h: "authHeader headers = Some (''Bearer'' @ ws @ g)"
      and c: "ws \<noteq> []" "list_all is_space ws" "g \<noteq> []" "list_all is_dot g" by blast
    have "match_Bearer (''Bearer'' @ ws @ g) \<noteq> None"
      using match_Bearer_None [of "''Bearer'' @ ws @ g"] c by blast
    then obtain g' where m: "match_Bearer (''Bearer'' @ ws @ g) = Some g'" by blast
    from match_Bearer_Some [OF m] have "g' \<noteq> []" by blast
    with n h m show False by (simp add: extractBearerToken_def)
  qed
  have conv: "extractBearerToken headers = None"
    if "\<not> (\<exists>ws g. authHeader headers = Some (''Bearer'' @ ws @ g)
                 \<and> ws \<noteq> [] \<and> list_all is_space ws \<and> g \<noteq> [] \<and> list_all is_dot g)"
  proof (cases "extractBearerToken headers")
    case None
    then show ?thesis .
  next
    case (Some tok)
    from some [OF this] that show ?thesis by blast
  qed
  have fail: "authenticate validate headers =
          \<lparr>success = False, auth_context = None,
           auth_error = Some ''Missing or invalid Authorization header''\<rparr>"
    if "extractBearerToken headers = None"
    using that by (simp add: authenticate_def)
  from some none conv fail authHeader_two_names [of headers] show ?thesis by blast
qed

theorem authenticate_bearer_header_witness:
  "extractBearerToken (Map.empty(''authorization'' \<mapsto> ''Bearer abc'')) = Some ''abc''
   \<and> (\<exists>ws. authHeader (Map.empty(''authorization'' \<mapsto> ''Bearer abc'')) = Some (''Bearer'' @ ws @ ''abc'')
          \<and> ws \<noteq> [] \<and> list_all is_space ws)
   \<and> extractBearerToken (Map.empty(''authorization'' \<mapsto> ''Basic abc'')) = None
   \<and> authenticate (\<lambda>t. Inl ''Invalid token: jwt malformed'') (Map.empty(''authorization'' \<mapsto> ''Basic abc'')) =
          \<lparr>success = False, auth_context = None,
           auth_error = Some ''Missing or invalid Authorization header''\<rparr>"
proof -
  have a: "extractBearerToken (Map.empty(''authorization'' \<mapsto> ''Bearer abc'')) = Some ''abc''"
    by (simp add: extractBearerToken_def authHeader_def match_Bearer_def startsWith_def
          is_space_def is_dot_def Let_def)
  have b: "extractBearerToken (Map.empty(''authorization'' \<mapsto> ''Basic abc'')) = None"
    by (simp add: extractBearerToken_def authHeader_def match_Bearer_def startsWith_def)
  show ?thesis
    using a b
      authenticate_bearer_header [of "Map.empty(''authorization'' \<mapsto> ''Bearer abc'')" "\<lambda>t. Inl ''Invalid token: jwt malformed''"]
      authenticate_bearer_header [of "Map.empty(''authorization'' \<mapsto> ''Basic abc'')" "\<lambda>t. Inl ''Invalid token: jwt malformed''"]
    by blast
qed

text \<open>
  C7 as stated fails: a well-formed header under the name \<open>AUTHORIZATION\<close> is not
  read, and \<open>Bearer\<close> followed by two spaces, or by a TAB, is accepted.
\<close>

theorem authenticate_bearer_header_counterexample:
  "extractBearerToken (Map.empty(''AUTHORIZATION'' \<mapsto> ''Bearer abc'')) = None
   \<and> authenticate (\<lambda>t. Inl ''Invalid token: jwt malformed'') (Map.empty(''AUTHORIZATION'' \<mapsto> ''Bearer abc''))
       = \<lparr>success = False, auth_context = None,
          auth_error = Some ''Missing or invalid Authorization header''\<rparr>
   \<and> extractBearerToken (Map.empty(''authorization'' \<mapsto> ''Bearer  abc'')) = Some ''abc''
   \<and> extractBearerToken (Map.empty(''authorization'' \<mapsto> ''Bearer'' @ [CHR 0x09] @ ''abc'')) = Some ''abc''"
  by (simp add: authenticate_def extractBearerToken_def authHeader_def match_Bearer_def startsWith_def
          is_space_def is_dot_def Let_def)

subsection \<open>Authorization-code exchange\<close>

text \<open>
  C3 (amended). \<^verbatim>\<open>exchangeCodeForToken\<close> compares the supplied state with
  nothing: the requests it posts and its result are the same for every value of
  \<open>state\<close>, it never fails with a \<open>SecurityError\<close>, and whenever the redirect URI
  of the configuration passes the schema it posts the token request.
\<close>

theorem exchangeCodeForToken_ignores_state:
  "exchangeCodeForToken env config authcode codeVerifier state
     = exchangeCodeForToken env config authcode codeVerifier state'
   \<and> (\<forall>m. snd (exchangeCodeForToken env config authcode codeVerifier state) \<noteq> Inl (SecurityError m))
   \<and> (isUrl env (cfg_redirectUri config) \<longrightarrow>
        fst (exchangeCodeForToken env config authcode codeVerifier state)
          = [\<lparr>grant_type = ''authorization_code'', code = Some authcode,
              redirect_uri = Some (cfg_redirectUri config), client_id = cfg_clientId config,
              code_verifier = Some codeVerifier, req_refresh_token = None\<rparr>])"
  by (simp add: exchangeCodeForToken_def TokenRequestSchema_parse_def Let_def
        split: sum.splits http_result.splits)

theorem exchangeCodeForToken_ignores_state_witness:
  "isUrl stub_env (cfg_redirectUri stub_config)
   \<and> fst (exchangeCodeForToken stub_env stub_config ''AUTHCODE123'' ''verifier'' ''s1'')
       = [\<lparr>grant_type = ''authorization_code'', code = Some ''AUTHCODE123'',
           redirect_uri = Some (cfg_redirectUri stub_config), client_id = cfg_clientId stub_config,
           code_verifier = Some ''verifier'', req_refresh_token = None\<rparr>]"
proof -
  have h: "isUrl stub_env (cfg_redirectUri stub_config)"
    by (simp add: stub_env_def stub_config_def startsWith_def)
  show ?thesis
    using h exchangeCodeForToken_ignores_state
      [of stub_env stub_config "''AUTHCODE123''" "''verifier''" "''s1''" "''s2''"]
    by blast
qed

text \<open>
  C3 as stated fails: with a state that was never issued, the exchange posts the
  token request and returns the token of the stub endpoint.
\<close>

theorem exchangeCodeForToken_state_counterexample:
  "exchangeCodeForToken stub_env stub_config ''AUTHCODE123'' ''verifier'' ''state-that-was-never-issued''
    = ([\<lparr>grant_type = ''authorization_code'', code = Some ''AUTHCODE123'',
         redirect_uri = Some ''https://app.example/cb'', client_id = ''client-1'',
         code_verifier = Some ''verifier'', req_refresh_token = None\<rparr>],
       Inr \<lparr>access_token = ''tok1'', token_type = ''Bearer'', expires_in = 3600,
            refresh_token = None, scope = None\<rparr>)"
  by (simp add: exchangeCodeForToken_def TokenRequestSchema_parse_def startsWith_def Let_def
        AccessTokenSchema_parse_def z_string_def z_string_default_def z_number_positive_def
        z_string_optional_def str_or_def stub_env_def stub_config_def)

subsection \<open>Token store\<close>

lemma split_on_nonempty: "split_on c xs \<noteq> []"
  by (induction xs) (auto split: list.splits)

lemma split_on_append: "c \<notin> set a \<Longrightarrow> split_on c (a @ c # b) = a # split_on c b"
  by (induction a) (auto split: list.splits simp: split_on_nonempty)

lemma split_on_no_sep: "c \<notin> set a \<Longrightarrow> split_on c a = [a]"
  by (induction a) (auto split: list.splits)

lemma hex_digit_in: "hex_digit n \<in> set ''0123456789abcdef''"
  unfolding hex_digit_def by (rule nth_mem) simp

lemma hex_digit_not_colon: "hex_digit n \<noteq> CHR '':''"
  using hex_digit_in [of n] by auto

lemma hex_byte_no_colon: "CHR '':'' \<notin> set (hex_byte b)"
  using hex_digit_not_colon [of "unat b div 16"] hex_digit_not_colon [of "unat b mod 16"]
  by (simp add: hex_byte_def)

lemma toString_hex_no_colon: "CHR '':'' \<notin> set (toString_hex bs)"
  by (simp add: toString_hex_def hex_byte_no_colon)

lemma toString_hex_nonempty: "bs \<noteq> [] \<Longrightarrow> toString_hex bs \<noteq> []"
  by (cases bs) (auto simp: toString_hex_def hex_byte_def)

lemma split_encrypt:
  "split_on (CHR '':'') (encrypt env k iv text) = toString_hex iv # split_on (CHR '':'') (cipher_hex env k text)"
  by (simp add: encrypt_def Let_def split_on_append toString_hex_no_colon)

text \<open>
  C2 (the code on every input). Encrypting one plaintext under one key with two
  initialization vectors gives blobs that differ in the prefix before the colon
  only: everything that \<^verbatim>\<open>decrypt\<close> reads after the colon, the ciphertext
  body, is the same, whatever the two vectors are.
\<close>

theorem encrypt_body_ignores_iv:
  "tl (split_on (CHR '':'') (encrypt env k iv1 text)) = tl (split_on (CHR '':'') (encrypt env k iv2 text))"
  by (simp add: split_encrypt)

lemma z_strings_map_JStr: "z_strings (map JStr xs) = Inr xs"
  by (induction xs) auto

lemma StoredTokenSchema_parse_json: "StoredTokenSchema_parse (StoredToken_json t) = Inr t"
  by (cases "st_refreshToken t")
     (simp_all add: StoredTokenSchema_parse_def StoredToken_json_def z_string_def z_string_optional_def
        z_number_def z_array_string_def z_strings_map_JStr)

lemma decrypt_encrypt:
  assumes "iv \<noteq> []" and "cipher_hex env k text \<noteq> []" and "CHR '':'' \<notin> set (cipher_hex env k text)"
  shows "decrypt env k (encrypt env k iv text) = decipher_utf8 env k (cipher_hex env k text)"
  using assms
  by (simp add: decrypt_def split_encrypt split_on_no_sep toString_hex_nonempty Let_def)

lemma keys_differ: "generateAccessTokenKey uid cid \<noteq> generateRefreshTokenKey uid' cid'"
  by (simp add: generateAccessTokenKey_def generateRefreshTokenKey_def)

lemma within_ttl:
  fixes t0 t1 e :: int
  assumes "t1 div 1000 < e"
  shows "t1 < t0 + max 60 (e - t0 div 1000) * 1000"
proof -
  define m where "m = max 60 (e - t0 div 1000)"
  have "e - t0 div 1000 \<le> m" by (simp add: m_def)
  then have "e * 1000 \<le> m * 1000 + (t0 div 1000) * 1000" by linarith
  moreover have "t1 < e * 1000" using assms by linarith
  moreover have "(t0 div 1000) * 1000 \<le> t0" by linarith
  ultimately have "t1 < t0 + m * 1000" by linarith
  then show ?thesis by (simp add: m_def)
qed

lemma ttl_positive: "0 < max 60 (x::int)"
  by linarith

lemma storeToken_reachable:
  assumes "reachable r"
  shows "\<exists>r1. storeToken env k iv uid cid tok ctx t0 r = Inr r1
           \<and> reachable r1
           \<and> kv r1 (generateAccessTokenKey uid cid)
               = Some (encrypt env k iv (JSON_stringify env (StoredToken_json
                          \<lparr>st_accessToken = access_token tok, st_refreshToken = refresh_token tok,
                           st_tokenType = token_type tok, st_expiresAt = expiresAt ctx,
                           st_scopes = scopes ctx, st_clientId = cid, st_userId = uid\<rparr>)),
                       t0 + max 60 (expiresAt ctx - t0 div 1000) * 1000)"
  using assms
  by (simp add: storeToken_def setEx_def Let_def keys_differ keys_differ [symmetric] ttl_positive
        del: max_less_iff_conj less_max_iff_disj)

lemma getToken_live:
  assumes "reachable r1"
    and "kv r1 (generateAccessTokenKey uid cid) = Some (blob, e)"
    and "t1 < e"
    and "blob \<noteq> []"
    and "decodeStoredToken env k blob = Inr st"
    and "t1 div 1000 < st_expiresAt st"
  shows "getToken env k uid cid t1 r1 = Inr (Some st, r1)"
  using assms by (simp add: getToken_def getToken_try_def redis_get_def Let_def)

lemma getToken_after_ttl:
  assumes "reachable r1"
    and "kv r1 (generateAccessTokenKey uid cid) = Some (blob, e)"
    and "e \<le> t2"
  shows "getToken env k uid cid t2 r1 = Inr (None, r1)"
  using assms by (simp add: getToken_def getToken_try_def redis_get_def Let_def)

lemma getToken_expired_in_window:
  assumes "reachable r1"
    and "kv r1 (generateAccessTokenKey uid cid) = Some (blob, e)"
    and "t1 < e"
    and "blob \<noteq> []"
    and "decodeStoredToken env k blob = Inr st"
    and "st_expiresAt st \<le> t1 div 1000"
  shows "getToken env k uid cid t1 r1
           = Inr (None, DEL (generateRefreshTokenKey uid cid) (DEL (generateAccessTokenKey uid cid) r1))"
proof -
  have "deleteToken uid cid r1
          = Inr (DEL (generateRefreshTokenKey uid cid) (DEL (generateAccessTokenKey uid cid) r1))"
    using assms(1) by (simp add: deleteToken_def del_def DEL_def)
  then show ?thesis
    using assms by (simp add: getToken_def getToken_try_def redis_get_def Let_def)
qed

lemma encrypt_nonempty: "encrypt env k iv text \<noteq> []"
  by (simp add: encrypt_def Let_def)

lemma decode_encrypt:
  assumes "iv \<noteq> []"
    and "JSON_parse env text = Inr (StoredToken_json st)"
    and "decipher_utf8 env k (cipher_hex env k text) = Inr text"
    and "cipher_hex env k text \<noteq> []" "CHR '':'' \<notin> set (cipher_hex env k text)"
  shows "decodeStoredToken env k (encrypt env k iv text) = Inr st"
  using assms
  by (simp add: decodeStoredToken_def decrypt_encrypt StoredTokenSchema_parse_json)

text \<open>
  C5 (amended). Let the store be reachable, and let the platform's decipher invert
  its cipher and \<^verbatim>\<open>JSON.parse\<close> invert \<^verbatim>\<open>JSON.stringify\<close> on the serialized
  record (the cipher's output being a non-empty string without a colon, as a
  hexadecimal string is). Then \<^verbatim>\<open>storeToken\<close> at time \<open>t0\<close> succeeds and
  \<^verbatim>\<open>decrypt\<close> inverts \<^verbatim>\<open>encrypt\<close>. A \<^verbatim>\<open>getToken\<close> at a later time
  \<open>t1\<close> at which the record's \<open>expiresAt\<close> is still in the future falls inside
  the time to live of the key and returns the record that was stored. A
  \<^verbatim>\<open>getToken\<close> inside the time to live at which \<open>expiresAt \<le> now\<close> returns absent
  and deletes the access and refresh keys. A \<^verbatim>\<open>getToken\<close> after the time to live
  has elapsed returns absent.
\<close>

theorem storeToken_getToken_roundtrip:
  assumes reach: "reachable r"
    and iv: "length iv = 16"
    and st: "st = \<lparr>st_accessToken = access_token tok, st_refreshToken = refresh_token tok,
                    st_tokenType = token_type tok, st_expiresAt = expiresAt ctx,
                    st_scopes = scopes ctx, st_clientId = cid, st_userId = uid\<rparr>"
    and ser: "text = JSON_stringify env (StoredToken_json st)"
    and parse: "JSON_parse env text = Inr (StoredToken_json st)"
    and dec: "decipher_utf8 env k (cipher_hex env k text) = Inr text"
    and hex: "cipher_hex env k text \<noteq> []" "CHR '':'' \<notin> set (cipher_hex env k text)"
  shows "\<exists>r1. storeToken env k iv uid cid tok ctx t0 r = Inr r1
           \<and> decrypt env k (encrypt env k iv text) = Inr text
           \<and> (\<forall>t1. t0 \<le> t1 \<and> t1 div 1000 < expiresAt ctx
                  \<longrightarrow> t1 < t0 + max 60 (expiresAt ctx - t0 div 1000) * 1000
                      \<and> getToken env k uid cid t1 r1 = Inr (Some st, r1))
           \<and> (\<forall>t1. t0 \<le> t1 \<and> t1 < t0 + max 60 (expiresAt ctx - t0 div 1000) * 1000
                     \<and> expiresAt ctx \<le> t1 div 1000
                  \<longrightarrow> getToken env k uid cid t1 r1
                        = Inr (None, DEL (generateRefreshTokenKey uid cid)
                                       (DEL (generateAccessTokenKey uid cid) r1)))
           \<and> (\<forall>t2. t0 + max 60 (expiresAt ctx - t0 div 1000) * 1000 \<le> t2
                  \<longrightarrow> getToken env k uid cid t2 r1 = Inr (None, r1))"
proof -
  let ?blob = "encrypt env k iv text"
  let ?e = "t0 + max 60 (expiresAt ctx - t0 div 1000) * 1000"
  from storeToken_reachable [OF reach, of env k iv uid cid tok ctx t0]
  obtain r1 where r1: "storeToken env k iv uid cid tok ctx t0 r = Inr r1" "reachable r1"
    "kv r1 (generateAccessTokenKey uid cid) = Some (?blob, ?e)"
    unfolding ser st by blast
  have ivne: "iv \<noteq> []" using iv by auto
  have d: "decrypt env k ?blob = Inr text"
    using decrypt_encrypt [OF ivne hex] dec by simp
  have dc: "decodeStoredToken env k ?blob = Inr st"
    using ivne parse dec hex by (rule decode_encrypt)
  have ex: "st_expiresAt st = expiresAt ctx" by (simp add: st)
  have live: "t1 < ?e \<and> getToken env k uid cid t1 r1 = Inr (Some st, r1)"
    if "t0 \<le> t1 \<and> t1 div 1000 < expiresAt ctx" for t1
  proof -
    from that have lt: "t1 div 1000 < expiresAt ctx" by simp
    have w: "t1 < ?e" using lt by (rule within_ttl)
    have "getToken env k uid cid t1 r1 = Inr (Some st, r1)"
      using r1(2) r1(3) w encrypt_nonempty dc
    proof (rule getToken_live)
      show "t1 div 1000 < st_expiresAt st" using lt ex by simp
    qed
    with w show ?thesis by simp
  qed
  have expired: "getToken env k uid cid t1 r1
        = Inr (None, DEL (generateRefreshTokenKey uid cid) (DEL (generateAccessTokenKey uid cid) r1))"
    if h: "t0 \<le> t1 \<and> t1 < ?e \<and> expiresAt ctx \<le> t1 div 1000" for t1
  proof -
    from h have w: "t1 < ?e" by simp
    show ?thesis
      using r1(2) r1(3) w encrypt_nonempty dc
    proof (rule getToken_expired_in_window)
      show "st_expiresAt st \<le> t1 div 1000" using h ex by simp
    qed
  qed
  have gone: "getToken env k uid cid t2 r1 = Inr (None, r1)" if "?e \<le> t2" for t2
    using r1(2) r1(3) that by (rule getToken_after_ttl)
  from r1(1) d live expired gone show ?thesis by blast
qed

text \<open>
  C4. \<^verbatim>\<open>getToken\<close> always returns. It returns absent, leaving the store as it
  was, when there is no live blob under the access-token key, and when the blob fails
  to decrypt, to parse as JSON or to pass the schema. When the decoded record has
  \<open>expiresAt \<le> now\<close> although its key is still alive, it deletes the access and
  refresh keys and returns absent. A record that it returns was decoded from the live
  blob and has \<open>now < expiresAt\<close>.
\<close>

theorem getToken_fail_closed:
  "(\<exists>res. getToken env k uid cid now_ms r = Inr res)
   \<and> (redis_get now_ms (generateAccessTokenKey uid cid) r = Inr None
        \<longrightarrow> getToken env k uid cid now_ms r = Inr (None, r))
   \<and> (\<forall>blob e. redis_get now_ms (generateAccessTokenKey uid cid) r = Inr (Some blob)
                 \<and> (decrypt env k blob = Inl e
                      \<or> (\<exists>text. decrypt env k blob = Inr text \<and> JSON_parse env text = Inl e)
                      \<or> (\<exists>text d. decrypt env k blob = Inr text \<and> JSON_parse env text = Inr d
                                   \<and> StoredTokenSchema_parse d = Inl e))
        \<longrightarrow> getToken env k uid cid now_ms r = Inr (None, r))
   \<and> (\<forall>blob t. redis_get now_ms (generateAccessTokenKey uid cid) r = Inr (Some blob)
                 \<and> blob \<noteq> [] \<and> decodeStoredToken env k blob = Inr t
                 \<and> st_expiresAt t \<le> now_ms div 1000
        \<longrightarrow> getToken env k uid cid now_ms r
              = Inr (None, DEL (generateRefreshTokenKey uid cid) (DEL (generateAccessTokenKey uid cid) r)))
   \<and> (\<forall>t r'. getToken env k uid cid now_ms r = Inr (Some t, r')
        \<longrightarrow> now_ms div 1000 < st_expiresAt t \<and> r' = r
            \<and> (\<exists>blob. redis_get now_ms (generateAccessTokenKey uid cid) r = Inr (Some blob)
                       \<and> decodeStoredToken env k blob = Inr t))"
proof -
  have 1: "\<exists>res. getToken env k uid cid now_ms r = Inr res"
    by (simp add: getToken_def split: sum.splits)
  have 2: "getToken env k uid cid now_ms r = Inr (None, r)"
    if "redis_get now_ms (generateAccessTokenKey uid cid) r = Inr None"
    using that by (simp add: getToken_def getToken_try_def)
  have 3: "getToken env k uid cid now_ms r = Inr (None, r)"
    if h: "redis_get now_ms (generateAccessTokenKey uid cid) r = Inr (Some blob)
        \<and> (decrypt env k blob = Inl e
             \<or> (\<exists>text. decrypt env k blob = Inr text \<and> JSON_parse env text = Inl e)
             \<or> (\<exists>text d. decrypt env k blob = Inr text \<and> JSON_parse env text = Inr d
                          \<and> StoredTokenSchema_parse d = Inl e))" for blob e
  proof -
    from h have "decodeStoredToken env k blob = Inl e"
      by (auto simp: decodeStoredToken_def)
    with h show ?thesis by (simp add: getToken_def getToken_try_def)
  qed
  have 4: "getToken env k uid cid now_ms r
              = Inr (None, DEL (generateRefreshTokenKey uid cid) (DEL (generateAccessTokenKey uid cid) r))"
    if h: "redis_get now_ms (generateAccessTokenKey uid cid) r = Inr (Some blob)
        \<and> blob \<noteq> [] \<and> decodeStoredToken env k blob = Inr t
        \<and> st_expiresAt t \<le> now_ms div 1000" for blob t
  proof -
    from h have "reachable r" by (auto simp: redis_get_def split: if_splits)
    then have "deleteToken uid cid r
        = Inr (DEL (generateRefreshTokenKey uid cid) (DEL (generateAccessTokenKey uid cid) r))"
      by (simp add: deleteToken_def del_def DEL_def)
    with h show ?thesis by (simp add: getToken_def getToken_try_def Let_def)
  qed
  have 5: "now_ms div 1000 < st_expiresAt t \<and> r' = r
            \<and> (\<exists>blob. redis_get now_ms (generateAccessTokenKey uid cid) r = Inr (Some blob)
                       \<and> decodeStoredToken env k blob = Inr t)"
    if "getToken env k uid cid now_ms r = Inr (Some t, r')" for t r'
    using that
    by (auto simp: getToken_def getToken_try_def Let_def
          split: sum.splits option.splits if_splits)
  from 1 2 3 4 5 show ?thesis by blast
qed

lemma stub_decode: "decodeStoredToken stub_crypto ''key'' ''00ff:5a17c0de'' = Inr stub_token"
  by (simp add: decodeStoredToken_def decrypt_def stub_crypto_def Let_def StoredTokenSchema_parse_json)

theorem getToken_fail_closed_witness:
  "getToken stub_crypto ''key'' ''u'' ''c'' 5000000 stub_store
     = Inr (None, DEL ''auth:refresh_token:c:u'' (DEL ''auth:access_token:c:u'' stub_store))
   \<and> kv (DEL ''auth:refresh_token:c:u'' (DEL ''auth:access_token:c:u'' stub_store)) ''auth:access_token:c:u'' = None
   \<and> getToken stub_crypto ''key'' ''u'' ''other'' 5000000 stub_store = Inr (None, stub_store)"
proof -
  have g: "redis_get 5000000 (generateAccessTokenKey ''u'' ''c'') stub_store = Inr (Some ''00ff:5a17c0de'')"
    by (simp add: redis_get_def stub_store_def redis_empty_def generateAccessTokenKey_def)
  have e: "st_expiresAt stub_token \<le> 5000000 div 1000"
    by (simp add: stub_token_def)
  have n: "redis_get 5000000 (generateAccessTokenKey ''u'' ''other'') stub_store = Inr None"
    by (simp add: redis_get_def stub_store_def redis_empty_def generateAccessTokenKey_def)
  have k: "generateAccessTokenKey ''u'' ''c'' = ''auth:access_token:c:u''"
          "generateRefreshTokenKey ''u'' ''c'' = ''auth:refresh_token:c:u''"
    by (simp_all add: generateAccessTokenKey_def generateRefreshTokenKey_def)
  have d: "kv (DEL ''auth:refresh_token:c:u'' (DEL ''auth:access_token:c:u'' stub_store)) ''auth:access_token:c:u'' = None"
    by (simp add: DEL_def)
  have "getToken stub_crypto ''key'' ''u'' ''c'' 5000000 stub_store
     = Inr (None, DEL (generateRefreshTokenKey ''u'' ''c'') (DEL (generateAccessTokenKey ''u'' ''c'') stub_store))"
    using g e stub_decode getToken_fail_closed [of stub_crypto "''key''" "''u''" "''c''" 5000000 stub_store]
    by blast
  moreover have "getToken stub_crypto ''key'' ''u'' ''other'' 5000000 stub_store = Inr (None, stub_store)"
    using n getToken_fail_closed [of stub_crypto "''key''" "''u''" "''other''" 5000000 stub_store]
    by blast
  ultimately show ?thesis using d by (simp add: k)
qed

lemma stub_hypotheses:
  "reachable redis_empty"
  "length (replicate 16 (0::byte)) = 16"
  "stub_token = \<lparr>st_accessToken = access_token stub_access, st_refreshToken = refresh_token stub_access,
                    st_tokenType = token_type stub_access, st_expiresAt = expiresAt stub_context,
                    st_scopes = scopes stub_context, st_clientId = ''c'', st_userId = ''u''\<rparr>"
  "stub_text = JSON_stringify stub_crypto (StoredToken_json stub_token)"
  "JSON_parse stub_crypto stub_text = Inr (StoredToken_json stub_token)"
  "decipher_utf8 stub_crypto ''key'' (cipher_hex stub_crypto ''key'' stub_text) = Inr stub_text"
  "cipher_hex stub_crypto ''key'' stub_text \<noteq> []"
  "CHR '':'' \<notin> set (cipher_hex stub_crypto ''key'' stub_text)"
  by (simp_all add: redis_empty_def stub_token_def stub_access_def stub_context_def stub_crypto_def)

theorem storeToken_getToken_roundtrip_witness:
  "\<exists>r1. storeToken stub_crypto ''key'' (replicate 16 0) ''u'' ''c'' stub_access stub_context 1000500 redis_empty = Inr r1
      \<and> getToken stub_crypto ''key'' ''u'' ''c'' 1500000 r1 = Inr (Some stub_token, r1)
      \<and> getToken stub_crypto ''key'' ''u'' ''c'' 2000200 r1
          = Inr (None, DEL (generateRefreshTokenKey ''u'' ''c'') (DEL (generateAccessTokenKey ''u'' ''c'') r1))
      \<and> getToken stub_crypto ''key'' ''u'' ''c'' 2000500 r1 = Inr (None, r1)"
proof -
  note h = stub_hypotheses
  from storeToken_getToken_roundtrip [OF h(1) h(2) h(3) h(4) h(5) h(6) h(7) h(8), of 1000500]
  obtain r1 where r1: "storeToken stub_crypto ''key'' (replicate 16 0) ''u'' ''c'' stub_access stub_context 1000500 redis_empty = Inr r1"
    and live: "\<And>t1. 1000500 \<le> t1 \<and> t1 div 1000 < expiresAt stub_context
                  \<Longrightarrow> getToken stub_crypto ''key'' ''u'' ''c'' t1 r1 = Inr (Some stub_token, r1)"
    and expired: "\<And>t1. 1000500 \<le> t1
                     \<and> t1 < 1000500 + max 60 (expiresAt stub_context - 1000500 div 1000) * 1000
                     \<and> expiresAt stub_context \<le> t1 div 1000
                  \<Longrightarrow> getToken stub_crypto ''key'' ''u'' ''c'' t1 r1
                        = Inr (None, DEL (generateRefreshTokenKey ''u'' ''c'')
                                       (DEL (generateAccessTokenKey ''u'' ''c'') r1))"
    and gone: "\<And>t2. 1000500 + max 60 (expiresAt stub_context - 1000500 div 1000) * 1000 \<le> t2
                  \<Longrightarrow> getToken stub_crypto ''key'' ''u'' ''c'' t2 r1 = Inr (None, r1)"
    by blast
  have a: "getToken stub_crypto ''key'' ''u'' ''c'' 1500000 r1 = Inr (Some stub_token, r1)"
    by (rule live) (simp add: stub_context_def)
  have b: "getToken stub_crypto ''key'' ''u'' ''c'' 2000200 r1
          = Inr (None, DEL (generateRefreshTokenKey ''u'' ''c'') (DEL (generateAccessTokenKey ''u'' ''c'') r1))"
    by (rule expired) (simp add: stub_context_def)
  have c: "getToken stub_crypto ''key'' ''u'' ''c'' 2000500 r1 = Inr (None, r1)"
    by (rule gone) (simp add: stub_context_def)
  from r1 a b c show ?thesis by blast
qed

lemma stub_store_then_expired_read:
  assumes "t0 \<le> t1" and "t1 < t0 + max 60 (expiresAt stub_context - t0 div 1000) * 1000"
    and "expiresAt stub_context \<le> t1 div 1000"
  shows "\<not> isl (storeToken stub_crypto ''key'' (replicate 16 0) ''u'' ''c'' stub_access stub_context t0 redis_empty)"
    and "redis_get t1 (generateAccessTokenKey ''u'' ''c'')
           (projr (storeToken stub_crypto ''key'' (replicate 16 0) ''u'' ''c'' stub_access stub_context t0 redis_empty))
         = Inr (Some (encrypt stub_crypto ''key'' (replicate 16 0) stub_text))"
    and "fst (projr (getToken stub_crypto ''key'' ''u'' ''c'' t1
           (projr (storeToken stub_crypto ''key'' (replicate 16 0) ''u'' ''c'' stub_access stub_context t0 redis_empty))))
         = None"
proof -
  note h = stub_hypotheses
  let ?blob = "encrypt stub_crypto ''key'' (replicate 16 0) stub_text"
  let ?e = "t0 + max 60 (expiresAt stub_context - t0 div 1000) * 1000"
  from storeToken_reachable [OF h(1), of stub_crypto "''key''" "replicate 16 0" "''u''" "''c''"
         stub_access stub_context t0]
  obtain r1 where r1: "storeToken stub_crypto ''key'' (replicate 16 0) ''u'' ''c'' stub_access stub_context t0 redis_empty = Inr r1"
    "reachable r1" "kv r1 (generateAccessTokenKey ''u'' ''c'') = Some (?blob, ?e)"
    unfolding h(4) h(3) by blast
  have ne: "replicate 16 (0::byte) \<noteq> []" by simp
  have dc: "decodeStoredToken stub_crypto ''key'' ?blob = Inr stub_token"
    using ne h(5) h(6) h(7) h(8) by (rule decode_encrypt)
  have ex: "st_expiresAt stub_token \<le> t1 div 1000"
    using assms(3) by (simp add: stub_token_def stub_context_def)
  have g: "getToken stub_crypto ''key'' ''u'' ''c'' t1 r1
        = Inr (None, DEL (generateRefreshTokenKey ''u'' ''c'') (DEL (generateAccessTokenKey ''u'' ''c'') r1))"
    using r1(2) r1(3) assms(2) encrypt_nonempty dc ex by (rule getToken_expired_in_window)
  show "\<not> isl (storeToken stub_crypto ''key'' (replicate 16 0) ''u'' ''c'' stub_access stub_context t0 redis_empty)"
    by (simp add: r1(1))
  show "redis_get t1 (generateAccessTokenKey ''u'' ''c'')
           (projr (storeToken stub_crypto ''key'' (replicate 16 0) ''u'' ''c'' stub_access stub_context t0 redis_empty))
         = Inr (Some ?blob)"
    using r1(2) r1(3) assms(2) by (simp add: r1(1) redis_get_def)
  show "fst (projr (getToken stub_crypto ''key'' ''u'' ''c'' t1
           (projr (storeToken stub_crypto ''key'' (replicate 16 0) ''u'' ''c'' stub_access stub_context t0 redis_empty))))
         = None"
    by (simp add: r1(1) g)
qed

text \<open>
  C5 as stated fails: a record whose \<open>expiresAt = 2000\<close> is in the future when it is
  stored is not returned by a \<^verbatim>\<open>getToken\<close> inside the time to live of its key
  once \<open>expiresAt \<le> now\<close>. Stored at 1950000 ms, the key lives for the floor of 60
  seconds, until 2010000 ms, and a read at 2005000 ms finds the key alive and returns
  absent. Stored at 1000500 ms, the key lives for 1000 seconds, until 2000500 ms, and
  a read at 2000200 ms finds the key alive and returns absent.
\<close>

theorem storeToken_getToken_roundtrip_counterexample:
  "(1950000::int) div 1000 < expiresAt stub_context
   \<and> \<not> isl (storeToken stub_crypto ''key'' (replicate 16 0) ''u'' ''c'' stub_access stub_context 1950000 redis_empty)
   \<and> (2005000::int) < 1950000 + max 60 (expiresAt stub_context - 1950000 div 1000) * 1000
   \<and> redis_get 2005000 (generateAccessTokenKey ''u'' ''c'')
        (projr (storeToken stub_crypto ''key'' (replicate 16 0) ''u'' ''c'' stub_access stub_context 1950000 redis_empty))
      = Inr (Some (encrypt stub_crypto ''key'' (replicate 16 0) stub_text))
   \<and> fst (projr (getToken stub_crypto ''key'' ''u'' ''c'' 2005000
        (projr (storeToken stub_crypto ''key'' (replicate 16 0) ''u'' ''c'' stub_access stub_context 1950000 redis_empty))))
      = None
   \<and> (1000500::int) div 1000 < expiresAt stub_context
   \<and> \<not> isl (storeToken stub_crypto ''key'' (replicate 16 0) ''u'' ''c'' stub_access stub_context 1000500 redis_empty)
   \<and> (2000200::int) < 1000500 + max 60 (expiresAt stub_context - 1000500 div 1000) * 1000
   \<and> redis_get 2000200 (generateAccessTokenKey ''u'' ''c'')
        (projr (storeToken stub_crypto ''key'' (replicate 16 0) ''u'' ''c'' stub_access stub_context 1000500 redis_empty))
      = Inr (Some (encrypt stub_crypto ''key'' (replicate 16 0) stub_text))
   \<and> fst (projr (getToken stub_crypto ''key'' ''u'' ''c'' 2000200
        (projr (storeToken stub_crypto ''key'' (replicate 16 0) ''u'' ''c'' stub_access stub_context 1000500 redis_empty))))
      = None"
proof -
  have a: "(1950000::int) \<le> 2005000"
    "(2005000::int) < 1950000 + max 60 (expiresAt stub_context - 1950000 div 1000) * 1000"
    "expiresAt stub_context \<le> 2005000 div 1000"
    "(1950000::int) div 1000 < expiresAt stub_context"
    by (simp_all add: stub_context_def)
  have b: "(1000500::int) \<le> 2000200"
    "(2000200::int) < 1000500 + max 60 (expiresAt stub_context - 1000500 div 1000) * 1000"
    "expiresAt stub_context \<le> 2000200 div 1000"
    "(1000500::int) div 1000 < expiresAt stub_context"
    by (simp_all add: stub_context_def)
  note x = stub_store_then_expired_read [OF a(1) a(2) a(3)]
  note y = stub_store_then_expired_read [OF b(1) b(2) b(3)]
  show ?thesis
    using a(2) a(4) b(2) b(4) x y by blast
qed

subsection \<open>PKCE generation\<close>

lemma base64URLEncode_alt: "base64URLEncode bs = concat (map url_char (toString_base64 bs))"
proof -
  have "replace_all (CHR ''='') [] (replace_all (CHR ''/'') ''_'' (replace_all (CHR ''+'') ''-'' s))
        = concat (map url_char s)" for s
    by (induction s) (auto simp: replace_all_def url_char_def)
  then show ?thesis by (simp add: base64URLEncode_def)
qed

lemma map_url_char: "map url_char base64_alphabet = map (\<lambda>c. [c]) url_alphabet"
  by (simp add: base64_alphabet_def url_alphabet_def url_char_def)

lemma length_alphabets: "length base64_alphabet = 64" "length url_alphabet = 64"
  by (simp_all add: base64_alphabet_def url_alphabet_def)

lemma url_char_b64: "url_char (b64 n) = [url_alphabet ! (n mod 64)]"
proof -
  have lt: "n mod 64 < 64" by simp
  have "url_char (b64 n) = map url_char base64_alphabet ! (n mod 64)"
    using lt by (simp add: b64_def length_alphabets)
  also have "\<dots> = [url_alphabet ! (n mod 64)]"
    using lt by (simp add: map_url_char length_alphabets)
  finally show ?thesis .
qed

lemma distinct_url_alphabet: "distinct url_alphabet"
  by (simp add: url_alphabet_def)

lemma url_alphabet_inj:
  assumes "n < 64" "m < 64" "url_alphabet ! n = url_alphabet ! m"
  shows "n = m"
  using assms distinct_url_alphabet by (simp add: nth_eq_iff_index_eq length_alphabets)

lemma url_padding: "url_char (CHR ''='') = []"
  by (simp add: url_char_def)

lemma base64URLEncode_simps:
  "base64URLEncode [] = []"
  "base64URLEncode [a] = [url_alphabet ! ((unat a div 4) mod 64), url_alphabet ! (((unat a mod 4) * 16) mod 64)]"
  "base64URLEncode [a, b] = [url_alphabet ! ((unat a div 4) mod 64),
      url_alphabet ! (((unat a mod 4) * 16 + unat b div 16) mod 64),
      url_alphabet ! (((unat b mod 16) * 4) mod 64)]"
  "base64URLEncode (a # b # c # bs) = [url_alphabet ! ((unat a div 4) mod 64),
      url_alphabet ! (((unat a mod 4) * 16 + unat b div 16) mod 64),
      url_alphabet ! (((unat b mod 16) * 4 + unat c div 64) mod 64),
      url_alphabet ! ((unat c mod 64) mod 64)] @ base64URLEncode bs"
  by (simp_all add: base64URLEncode_alt url_char_b64 url_padding)

lemma length_base64URLEncode: "length (base64URLEncode bs) = (4 * length bs + 2) div 3"
  by (induction bs rule: toString_base64.induct) (simp_all add: base64URLEncode_simps)

lemma pair_inj:
  fixes a b a' b' k :: nat
  assumes "b < k" "b' < k" "a * k + b = a' * k + b'"
  shows "a = a' \<and> b = b'"
proof -
  have "(a * k + b) div k = a" "(a' * k + b') div k = a'"
    using assms(1,2) by simp_all
  then have "a = a'" using assms(3) by simp
  with assms(3) show ?thesis by simp
qed

lemma sextets_inj:
  fixes x y z x' y' z' :: nat
  assumes a: "x div 4 = x' div 4"
    and b: "(x mod 4) * 16 + y div 16 = (x' mod 4) * 16 + y' div 16"
    and c: "(y mod 16) * 4 + z div 64 = (y' mod 16) * 4 + z' div 64"
    and d: "z mod 64 = z' mod 64"
    and y: "y < 256" "y' < 256" and z: "z < 256" "z' < 256"
  shows "x = x' \<and> y = y' \<and> z = z'"
proof -
  have "y div 16 < 16" "y' div 16 < 16" using y by simp_all
  from pair_inj [OF this b] have x0: "x mod 4 = x' mod 4" and y1: "y div 16 = y' div 16" by simp_all
  have "z div 64 < 4" "z' div 64 < 4" using z by simp_all
  from pair_inj [OF this c] have y0: "y mod 16 = y' mod 16" and z1: "z div 64 = z' div 64" by simp_all
  have "x = x'" using a x0 by (metis div_mult_mod_eq)
  moreover have "y = y'" using y1 y0 by (metis div_mult_mod_eq)
  moreover have "z = z'" using z1 d by (metis div_mult_mod_eq)
  ultimately show ?thesis by simp
qed

lemma unat_byte: "unat (a::byte) < 256"
  using unsigned_less [of a, where ?'a = nat] by simp

lemma sextet_bounds:
  fixes x y z :: nat
  assumes "x < 256" "y < 256" "z < 256"
  shows "x div 4 < 64" "(x mod 4) * 16 + y div 16 < 64" "(y mod 16) * 4 + z div 64 < 64" "z mod 64 < 64"
proof -
  show "x div 4 < 64" using assms by simp
  have "x mod 4 \<le> 3" by simp
  moreover have "y div 16 \<le> 15" using assms by simp
  ultimately show "(x mod 4) * 16 + y div 16 < 64" by linarith
  have "y mod 16 \<le> 15" by simp
  moreover have "z div 64 \<le> 3" using assms by simp
  ultimately show "(y mod 16) * 4 + z div 64 < 64" by linarith
  show "z mod 64 < 64" by simp
qed

lemma group_inj:
  fixes a b c a' b' c' :: byte
  assumes "url_alphabet ! ((unat a div 4) mod 64) = url_alphabet ! ((unat a' div 4) mod 64)"
    and "url_alphabet ! (((unat a mod 4) * 16 + unat b div 16) mod 64)
         = url_alphabet ! (((unat a' mod 4) * 16 + unat b' div 16) mod 64)"
    and "url_alphabet ! (((unat b mod 16) * 4 + unat c div 64) mod 64)
         = url_alphabet ! (((unat b' mod 16) * 4 + unat c' div 64) mod 64)"
    and "url_alphabet ! ((unat c mod 64) mod 64) = url_alphabet ! ((unat c' mod 64) mod 64)"
  shows "a = a' \<and> b = b' \<and> c = c'"
proof -
  note bd = sextet_bounds [OF unat_byte [of a] unat_byte [of b] unat_byte [of c]]
  note bd' = sextet_bounds [OF unat_byte [of a'] unat_byte [of b'] unat_byte [of c']]
  have 1: "unat a div 4 = unat a' div 4"
    using url_alphabet_inj [OF _ _ assms(1)] bd(1) bd'(1) by simp
  have 2: "(unat a mod 4) * 16 + unat b div 16 = (unat a' mod 4) * 16 + unat b' div 16"
    using url_alphabet_inj [OF _ _ assms(2)] bd(2) bd'(2) by simp
  have 3: "(unat b mod 16) * 4 + unat c div 64 = (unat b' mod 16) * 4 + unat c' div 64"
    using url_alphabet_inj [OF _ _ assms(3)] bd(3) bd'(3) by simp
  have 4: "unat c mod 64 = unat c' mod 64"
    using url_alphabet_inj [OF _ _ assms(4)] by simp
  from sextets_inj [OF 1 2 3 4 unat_byte unat_byte unat_byte unat_byte]
  show ?thesis by (simp add: word_unat_eq_iff)
qed

lemma base64URLEncode_inj:
  "length xs = length ys \<Longrightarrow> base64URLEncode xs = base64URLEncode ys \<Longrightarrow> xs = ys"
proof (induction xs arbitrary: ys rule: toString_base64.induct)
  case 1
  then show ?case by simp
next
  case (2 a)
  then obtain a' where ys: "ys = [a']" by (cases ys) auto
  from 2(2) have "a = a' \<and> (0::byte) = 0 \<and> (0::byte) = 0"
    unfolding ys by (intro group_inj) (simp_all add: base64URLEncode_simps)
  then show ?case by (simp add: ys)
next
  case (3 a b)
  then obtain a' b' where ys: "ys = [a', b']"
    by (cases ys; cases "tl ys") auto
  from 3(2) have "a = a' \<and> b = b' \<and> (0::byte) = 0"
    unfolding ys by (intro group_inj) (simp_all add: base64URLEncode_simps)
  then show ?case by (simp add: ys)
next
  case (4 a b c bs)
  then obtain a' b' c' bs' where ys: "ys = a' # b' # c' # bs'" and len: "length bs = length bs'"
    by (cases ys; cases "tl ys"; cases "tl (tl ys)") auto
  from 4(3) have eq: "a = a' \<and> b = b' \<and> c = c'"
    unfolding ys by (intro group_inj) (simp_all add: base64URLEncode_simps)
  from 4(3) have rest: "base64URLEncode bs = base64URLEncode bs'"
    unfolding ys by (simp add: base64URLEncode_simps)
  from 4(1) [OF len rest] eq show ?case by (simp add: ys)
qed

lemma generatePKCE_Inr:
  assumes "length random32 = 32" "length random16 = 16"
    and "length (digest (ascii_bytes (base64URLEncode random32))) = 32"
  shows "generatePKCE digest random32 random16 =
           Inr \<lparr>pkce_code_verifier = base64URLEncode random32,
                pkce_code_challenge = base64URLEncode (digest (ascii_bytes (base64URLEncode random32))),
                pkce_code_challenge_method = ''S256'',
                pkce_state = base64URLEncode random16\<rparr>"
  using assms by (simp add: generatePKCE_def PKCESchema_parse_def Let_def length_base64URLEncode)

lemma generatePKCE_fields:
  assumes "generatePKCE digest random32 random16 = Inr p"
  shows "pkce_code_verifier p = base64URLEncode random32" "pkce_state p = base64URLEncode random16"
  using assms by (auto simp: generatePKCE_def PKCESchema_parse_def Let_def split: if_splits)

text \<open>
  C9. Let \<^verbatim>\<open>randomBytes\<close> return 32 and 16 bytes and the digest of the verifier
  have 32 bytes. Then \<^verbatim>\<open>generatePKCE\<close> returns parameters whose verifier is the
  base64url text of the 32 random bytes, with a length within 43 to 128 characters;
  whose challenge is the base64url text of the digest of the verifier's ASCII bytes,
  with method \<open>S256\<close>; and whose state is the base64url text of the 16 bytes of
  the second draw. Another generation from other random bytes has another verifier,
  and from other state bytes another state.
\<close>

theorem generatePKCE_spec:
  assumes r32: "length random32 = 32" and r16: "length random16 = 16"
    and sha: "length (digest (ascii_bytes (base64URLEncode random32))) = 32"
  shows "\<exists>p. generatePKCE digest random32 random16 = Inr p
           \<and> pkce_code_verifier p = base64URLEncode random32
           \<and> 43 \<le> length (pkce_code_verifier p) \<and> length (pkce_code_verifier p) \<le> 128
           \<and> pkce_code_challenge p = base64URLEncode (digest (ascii_bytes (pkce_code_verifier p)))
           \<and> pkce_code_challenge_method p = ''S256''
           \<and> pkce_state p = base64URLEncode random16
           \<and> (\<forall>random32' random16' p'.
                  length random32' = 32 \<and> length random16' = 16
                  \<and> generatePKCE digest random32' random16' = Inr p'
                  \<longrightarrow> (random32' \<noteq> random32 \<longrightarrow> pkce_code_verifier p' \<noteq> pkce_code_verifier p)
                      \<and> (random16' \<noteq> random16 \<longrightarrow> pkce_state p' \<noteq> pkce_state p))"
proof -
  let ?p = "\<lparr>pkce_code_verifier = base64URLEncode random32,
             pkce_code_challenge = base64URLEncode (digest (ascii_bytes (base64URLEncode random32))),
             pkce_code_challenge_method = ''S256'',
             pkce_state = base64URLEncode random16\<rparr>"
  have g: "generatePKCE digest random32 random16 = Inr ?p"
    using r32 r16 sha by (rule generatePKCE_Inr)
  have len: "length (pkce_code_verifier ?p) = 43"
    using r32 by (simp add: length_base64URLEncode)
  have d: "(random32' \<noteq> random32 \<longrightarrow> pkce_code_verifier p' \<noteq> pkce_code_verifier ?p)
           \<and> (random16' \<noteq> random16 \<longrightarrow> pkce_state p' \<noteq> pkce_state ?p)"
    if h: "length random32' = 32 \<and> length random16' = 16
           \<and> generatePKCE digest random32' random16' = Inr p'" for random32' random16' p'
  proof -
    from h have gp: "generatePKCE digest random32' random16' = Inr p'" by simp
    have f: "pkce_code_verifier p' = base64URLEncode random32'"
      "pkce_state p' = base64URLEncode random16'"
      using generatePKCE_fields [OF gp] by simp_all
    have "random32' = random32" if "base64URLEncode random32' = base64URLEncode random32"
      using h r32 that by (intro base64URLEncode_inj) simp_all
    moreover have "random16' = random16" if "base64URLEncode random16' = base64URLEncode random16"
      using h r16 that by (intro base64URLEncode_inj) simp_all
    ultimately show ?thesis using f by auto
  qed
  from g len d show ?thesis by (intro exI [of _ ?p]) (simp del: One_nat_def)
qed

theorem generatePKCE_spec_witness:
  "\<exists>p p'. generatePKCE stub_sha256 (replicate 32 0) (replicate 16 0) = Inr p
         \<and> generatePKCE stub_sha256 (replicate 32 1) (replicate 16 1) = Inr p'
         \<and> length (pkce_code_verifier p) = 43
         \<and> pkce_code_verifier p' \<noteq> pkce_code_verifier p
         \<and> pkce_state p' \<noteq> pkce_state p"
proof -
  have l0: "length (replicate 32 (0::byte)) = 32" "length (replicate 16 (0::byte)) = 16" by simp_all
  have l1: "length (replicate 32 (1::byte)) = 32" "length (replicate 16 (1::byte)) = 16" by simp_all
  have s0: "length (stub_sha256 (ascii_bytes (base64URLEncode (replicate 32 0)))) = 32"
    by (simp add: stub_sha256_def)
  have s1: "length (stub_sha256 (ascii_bytes (base64URLEncode (replicate 32 1)))) = 32"
    by (simp add: stub_sha256_def)
  from generatePKCE_spec [where digest = stub_sha256, OF l1 s1] obtain p' where
    p': "generatePKCE stub_sha256 (replicate 32 1) (replicate 16 1) = Inr p'" by blast
  from generatePKCE_spec [where digest = stub_sha256, OF l0 s0] obtain p where
    p: "generatePKCE stub_sha256 (replicate 32 0) (replicate 16 0) = Inr p"
    and v: "pkce_code_verifier p = base64URLEncode (replicate 32 0)"
    and d: "\<And>random32' random16' p'.
                  length random32' = 32 \<and> length random16' = 16
                  \<and> generatePKCE stub_sha256 random32' random16' = Inr p'
                  \<Longrightarrow> (random32' \<noteq> replicate 32 0 \<longrightarrow> pkce_code_verifier p' \<noteq> pkce_code_verifier p)
                      \<and> (random16' \<noteq> replicate 16 0 \<longrightarrow> pkce_state p' \<noteq> pkce_state p)"
    by blast
  have ne: "replicate 32 (1::byte) \<noteq> replicate 32 0" "replicate 16 (1::byte) \<noteq> replicate 16 0"
    by (simp_all add: replicate_eq_replicate)
  have len: "length (pkce_code_verifier p) = 43"
    by (simp add: v length_base64URLEncode)
  from d [of "replicate 32 1" "replicate 16 1" p'] l1 p' ne
  have "pkce_code_verifier p' \<noteq> pkce_code_verifier p" "pkce_state p' \<noteq> pkce_state p"
    by simp_all
  with p p' len show ?thesis by blast
qed

end
